theory Spec2Isabelle
  imports Main
begin

section \<open>JavaScript values\<close>

text \<open>
  Primitive JavaScript values, as far as row and column ids need them. \<open>JUndefined\<close>
  also stands for a property that is absent: reading it yields \<open>undefined\<close>, and
  \<^verbatim>\<open>JSON.stringify\<close> drops it. Numbers are the integers (ids and order
  indices arrive as JSON integers); \<open>NaN\<close> is not modelled.
\<close>

datatype jsval = JUndefined | JNull | JBool bool | JNum int | JStr string

text \<open>\<^verbatim>\<open>ToBoolean\<close>: the falsy values are undefined, null, false, 0 and the empty string.\<close>

fun truthy :: "jsval \<Rightarrow> bool" where
  "truthy JUndefined = False"
| "truthy JNull = False"
| "truthy (JBool b) = b"
| "truthy (JNum n) = (n \<noteq> 0)"
| "truthy (JStr s) = (s \<noteq> [])"

text \<open>\<^verbatim>\<open>a || b\<close>\<close>

definition js_or :: "jsval \<Rightarrow> jsval \<Rightarrow> jsval" where
  "js_or a b = (if truthy a then a else b)"

text \<open>\<^verbatim>\<open>Math.max(a, ...xs)\<close> on integers.\<close>

definition Math_max :: "int \<Rightarrow> int list \<Rightarrow> int" where
  "Math_max a xs = fold max xs a"

text \<open>
  JavaScript numbers are IEEE 754 doubles. Among the integers, those of magnitude up
  to \<open>2\<^sup>5\<^sup>3 = 9007199254740992\<close> are doubles; a larger one is a double when its 53
  leading bits hold all its one bits. \<open>to_double n\<close> is the double nearest to the integer
  \<open>n\<close>, the one with the even significand when two are equally near: the number that
  the digits of \<open>n\<close> are read as, and the result of an operation whose exact result
  is \<open>n\<close>. (Overflow to \<open>Infinity\<close>, from \<open>2\<^sup>1\<^sup>0\<^sup>2\<^sup>4\<close> on, is not modelled.)
\<close>

fun bit_length :: "nat \<Rightarrow> nat" where
  "bit_length n = (if n = 0 then 0 else Suc (bit_length (n div 2)))"

declare bit_length.simps [simp del]

definition to_double :: "int \<Rightarrow> int" where
  "to_double n =
     (let a = \<bar>n\<bar>
      in if a \<le> 9007199254740992 then n
         else
           let u = 2 ^ (bit_length (nat a) - 53);
               q = a div u;
               r = a mod u;
               q' = (if 2 * r < u then q
                     else if u < 2 * r then q + 1
                     else if even q then q else q + 1)
           in sgn n * (q' * u))"

text \<open>\<^verbatim>\<open>a + b\<close> on numbers that are integers: the exact sum, rounded to a double.\<close>

definition double_add :: "int \<Rightarrow> int \<Rightarrow> int" where
  "double_add a b = to_double (to_double a + to_double b)"

text \<open>
  A JavaScript string as its UTF-16 code units, where the code treats strings by
  character (\<^verbatim>\<open>trim\<close>, \<^verbatim>\<open>split\<close>, \<^verbatim>\<open>substring\<close>, \<^verbatim>\<open>toUpperCase\<close>); \<open>ascii\<close> gives the
  code units of an ASCII literal. Strings that are only stored, compared and
  concatenated are of type \<open>string\<close>.
\<close>

type_synonym ustring = "nat list"

definition ascii :: "string \<Rightarrow> ustring" where
  "ascii s = map of_char s"

section \<open>Page data\<close>

text \<open>
  A cell slot of a row's \<^verbatim>\<open>cells\<close> array: \<open>Some v\<close> is the string \<open>v\<close>, \<open>None\<close> is
  an empty slot (an array hole, \<open>undefined\<close> or \<open>null\<close>). The program never tells
  these three apart: \<^verbatim>\<open>DataTable\<close> reads a cell as \<^verbatim>\<open>row.cells?.[colIndex] ?? ''\<close>
  and \<^verbatim>\<open>JSON.stringify\<close> writes each of them as \<open>null\<close>. With this reading
  \<^verbatim>\<open>JSON.parse(JSON.stringify(x))\<close> returns a value equal to \<open>x\<close>, in a fresh object.
\<close>

type_synonym cell = "string option"

text \<open>
  Columns, rows and pages as the gateway delivers them: \<^verbatim>\<open>{id, name, order, width}\<close>,
  \<^verbatim>\<open>{id, order, cells}\<close> and \<^verbatim>\<open>{columns, rows}\<close>. An id is any primitive value (absent
  and \<open>null\<close> for an item not yet saved); \<^verbatim>\<open>cells\<close>, \<^verbatim>\<open>columns\<close> and \<^verbatim>\<open>rows\<close> are
  always arrays. An order is a number that is an integer, held as that integer (an
  integer that is no double stands for the double it is read as). Other properties of
  a page are not read by the handlers modelled here.
\<close>

record column =
  col_id :: jsval
  col_name :: string
  col_order :: int
  col_width :: int

record row =
  row_id :: jsval
  row_order :: int
  cells :: "cell list"

record page =
  columns :: "column list"
  rows :: "row list"

text \<open>
  \<^verbatim>\<open>arr[i] = v\<close> on a JavaScript array: inside the array the slot is replaced; at or
  past the end the array grows to length \<open>i + 1\<close> and the slots in between stay empty.
\<close>

definition array_set :: "cell list \<Rightarrow> nat \<Rightarrow> cell \<Rightarrow> cell list" where
  "array_set xs i v =
     (if i < length xs then xs[i := v]
      else xs @ replicate (i - length xs) None @ [v])"

section \<open>Errors, notifications and gateway calls\<close>

text \<open>
  Data of a rejected gateway call (\<^verbatim>\<open>err.response?.data\<close>): a JSON value.
  \<open>EPrim JUndefined\<close> is a rejection with no response data. The pairs of \<open>EObj\<close> are
  the object's properties in enumeration order.
\<close>

datatype errdata =
  EPrim jsval
| EArr "errdata list"
| EObj "(string \<times> errdata) list"

abbreviation e_str :: "string \<Rightarrow> errdata" where
  "e_str s \<equiv> EPrim (JStr s)"

fun e_truthy :: "errdata \<Rightarrow> bool" where
  "e_truthy (EPrim v) = truthy v"
| "e_truthy (EArr xs) = True"
| "e_truthy (EObj kvs) = True"

definition e_or :: "errdata \<Rightarrow> errdata \<Rightarrow> errdata" where
  "e_or a b = (if e_truthy a then a else b)"

text \<open>\<^verbatim>\<open>d?.k\<close>: the property \<open>k\<close> of \<open>d\<close>, \<open>undefined\<close> when \<open>d\<close> has none.\<close>

definition get_prop :: "errdata \<Rightarrow> string \<Rightarrow> errdata" where
  "get_prop d k =
     (case d of
        EObj kvs \<Rightarrow> (case map_of kvs k of Some v \<Rightarrow> v | None \<Rightarrow> EPrim JUndefined)
      | _ \<Rightarrow> EPrim JUndefined)"

text \<open>\<^verbatim>\<open>Object.values(d)\<close> of an object or an array.\<close>

definition Object_values :: "errdata \<Rightarrow> errdata list" where
  "Object_values d = (case d of EObj kvs \<Rightarrow> map snd kvs | EArr xs \<Rightarrow> xs | EPrim v \<Rightarrow> [])"

text \<open>\<^verbatim>\<open>xs.flat()\<close>: one level of nested arrays is spliced in.\<close>

definition flat :: "errdata list \<Rightarrow> errdata list" where
  "flat xs = concat (map (\<lambda>x. case x of EArr ys \<Rightarrow> ys | _ \<Rightarrow> [x]) xs)"

text \<open>\<^verbatim>\<open>xs.filter(msg => typeof msg === 'string')\<close>\<close>

fun strings_of :: "errdata list \<Rightarrow> string list" where
  "strings_of [] = []"
| "strings_of (EPrim (JStr m) # xs) = m # strings_of xs"
| "strings_of (x # xs) = strings_of xs"

text \<open>\<^verbatim>\<open>xs.join(sep)\<close>\<close>

fun join :: "string \<Rightarrow> string list \<Rightarrow> string" where
  "join sep [] = []"
| "join sep [x] = x"
| "join sep (x # y # ys) = x @ sep @ join sep (y # ys)"

record js_error =
  err_name :: string
  err_status :: "nat option"
  err_data :: errdata

text \<open>How an awaited gateway call settles.\<close>

datatype 'a outcome = Resolved 'a | Rejected js_error

datatype severity = Info | Success | Warning | Error

record notification =
  n_id :: nat
  n_message :: errdata
  n_type :: severity
  n_duration :: nat

datatype request =
  GetPageData string
| SavePageData string page
| GetTodoDetail string
| UpdateTodoStatus string jsval jsval

datatype console_msg =
  WarnSaveNotEditing
| WarnNonExistentCell nat nat
| WarnCsrfMissing ustring
| ErrorFetchFailed
| ErrorSaveFailed
| ErrorStatusFailed

text \<open>
  What \<^verbatim>\<open>PageView\<close> and \<^verbatim>\<open>TodoView\<close> share: the mount flag, the loading flag, the
  notifications of \<^verbatim>\<open>NotificationContext\<close> (newest first; \<open>next_uuid\<close> stands for
  \<^verbatim>\<open>uuidv4()\<close>), the gateway calls made (newest first) and the warnings and errors
  written to the console (newest first; \<^verbatim>\<open>console.log\<close> lines are left out).
\<close>

record view_state =
  isMounted :: bool
  loading :: bool
  notifications :: "notification list"
  next_uuid :: nat
  requests :: "request list"
  console :: "console_msg list"

text \<open>\<^verbatim>\<open>addNotification(message, type = 'info', duration = 5000)\<close>\<close>

definition addNotification ::
  "errdata \<Rightarrow> severity \<Rightarrow> nat \<Rightarrow> 'a view_state_scheme \<Rightarrow> 'a view_state_scheme" where
  "addNotification message ty duration s =
     s\<lparr>notifications :=
         \<lparr>n_id = next_uuid s, n_message = message, n_type = ty, n_duration = duration\<rparr>
           # notifications s,
       next_uuid := Suc (next_uuid s)\<rparr>"

section \<open>The state of the page view\<close>

text \<open>
  The state of \<^verbatim>\<open>PageView\<close> with the part of \<^verbatim>\<open>PageActionContext\<close> it drives.
  \<open>heap\<close> is the object store: the address of a page object is its index, and
  \<open>pageData\<close>, \<open>editData\<close> hold addresses (\<open>None\<close> is \<open>null\<close>), so that two state
  variables can share one object and a mutation through one address is seen through
  every alias. A handler is one step on the state current when it runs.
\<close>

record pv_state = view_state +
  pageSlug :: string
  heap :: "page list"
  pageData :: "nat option"
  editData :: "nat option"
  pageError :: "errdata option"
  editError :: "errdata option"
  isEditing :: bool
  canEdit :: bool
  isLoadingSave :: bool

text \<open>Allocation of a new object.\<close>

definition alloc :: "page \<Rightarrow> pv_state \<Rightarrow> nat \<times> pv_state" where
  "alloc p s = (length (heap s), s\<lparr>heap := heap s @ [p]\<rparr>)"

text \<open>\<^verbatim>\<open>JSON.parse(JSON.stringify(x))\<close>: a fresh object with the content of \<open>x\<close>.\<close>

definition json_copy :: "nat \<Rightarrow> pv_state \<Rightarrow> nat \<times> pv_state" where
  "json_copy a s = alloc (heap s ! a) s"

text \<open>The content a state variable points to.\<close>

definition deref :: "pv_state \<Rightarrow> nat option \<Rightarrow> page option" where
  "deref s r = (case r of None \<Rightarrow> None | Some a \<Rightarrow> Some (heap s ! a))"

text \<open>The canonical page is the content of \<open>pageData\<close>, the edit buffer that of \<open>editData\<close>.\<close>

definition canonical :: "pv_state \<Rightarrow> page option" where
  "canonical s = deref s (pageData s)"

definition editBuffer :: "pv_state \<Rightarrow> page option" where
  "editBuffer s = deref s (editData s)"

text \<open>Every address held by the state is allocated.\<close>

definition refs_ok :: "pv_state \<Rightarrow> bool" where
  "refs_ok s =
     ((case pageData s of None \<Rightarrow> True | Some a \<Rightarrow> a < length (heap s)) \<and>
      (case editData s of None \<Rightarrow> True | Some a \<Rightarrow> a < length (heap s)))"

text \<open>
  \<^verbatim>\<open>const displayData = (isEditing ? editData : pageData) || { columns: [], rows: [] }\<close>
\<close>

definition displayData :: "pv_state \<Rightarrow> page" where
  "displayData s =
     (case (if isEditing s then editData s else pageData s) of
        Some a \<Rightarrow> heap s ! a
      | None \<Rightarrow> \<lparr>columns = [], rows = []\<rparr>)"

section \<open>Fetching the page\<close>

text \<open>\<^verbatim>\<open>fetchData\<close> up to its \<^verbatim>\<open>await api.getPageData(pageSlug, ...)\<close>.\<close>

definition fetchData_begin :: "pv_state \<Rightarrow> pv_state" where
  "fetchData_begin s =
     s\<lparr>loading := True, pageError := None,
       requests := GetPageData (pageSlug s) # requests s\<rparr>"

text \<open>\<^verbatim>\<open>fetchData\<close> from the point where the call has settled.\<close>

definition fetchData_settle :: "page outcome \<Rightarrow> pv_state \<Rightarrow> pv_state" where
  "fetchData_settle response s =
     (case response of
        Resolved fetchedData \<Rightarrow>
          if \<not> isMounted s then s
          else
            let (a, s1) = alloc fetchedData s;
                s2 = s1\<lparr>pageData := Some a, canEdit := True\<rparr>;
                (b, s3) = json_copy a s2
            in s3\<lparr>editData := Some b, loading := False\<rparr>
      | Rejected err \<Rightarrow>
          if err_name err = ''CanceledError''
          then (if isMounted s then s\<lparr>loading := False\<rparr> else s)
          else
            let s1 = s\<lparr>console := ErrorFetchFailed # console s\<rparr>
            in if \<not> isMounted s1 then s1
               else
                 let errorMsg =
                       e_or (e_or (get_prop (err_data err) ''detail'') (get_prop (err_data err) ''error''))
                         (e_str ''Could not load page data.'');
                     s2 = addNotification errorMsg Error 5000 (s1\<lparr>pageError := Some errorMsg\<rparr>);
                     s3 = (if err_status err = Some 404
                           then s2\<lparr>pageError := Some (e_str ''Page not found.'')\<rparr> else s2);
                     s4 = (if err_status err = Some 403
                           then s3\<lparr>pageError :=
                                      Some (e_str ''You do not have permission to view this page.''),
                                    canEdit := False\<rparr>
                           else s3)
                 in s4\<lparr>loading := False\<rparr>)"

text \<open>\<^verbatim>\<open>fetchData\<close> run to its end, the call settling with \<open>response\<close>.\<close>

definition fetchData :: "page outcome \<Rightarrow> pv_state \<Rightarrow> pv_state" where
  "fetchData response s =
     (if \<not> isMounted s then s else fetchData_settle response (fetchData_begin s))"

section \<open>Saving, entering and leaving edit mode\<close>

text \<open>The payload of a save, built from the content of \<open>editData\<close>.\<close>

definition save_payload :: "page \<Rightarrow> page" where
  "save_payload d =
     \<lparr>columns = map (\<lambda>col. \<lparr>col_id = js_or (col_id col) JNull, col_name = col_name col,
                            col_order = col_order col, col_width = col_width col\<rparr>) (columns d),
      rows = map (\<lambda>row. \<lparr>row_id = js_or (row_id row) JNull, row_order = row_order row,
                         cells = cells row\<rparr>) (rows d)\<rparr>"

text \<open>The message the \<^verbatim>\<open>catch\<close> block of \<^verbatim>\<open>handleSaveChanges\<close> extracts.\<close>

definition save_error_message :: "errdata \<Rightarrow> errdata" where
  "save_error_message errorData =
     (case errorData of
        EPrim (JStr m) \<Rightarrow> e_str m
      | EPrim v \<Rightarrow> e_str ''Failed to save changes.''
      | _ \<Rightarrow>
          let messages = strings_of (flat (Object_values errorData))
          in if length messages > 0 then e_str (join '' '' messages)
             else if e_truthy (e_or (get_prop errorData ''detail'') (get_prop errorData ''error''))
             then e_or (get_prop errorData ''detail'') (get_prop errorData ''error'')
             else e_str ''Failed to save changes.'')"

text \<open>
  \<^verbatim>\<open>handleSaveChanges\<close> past its guard and up to its
  \<^verbatim>\<open>await api.savePageData(pageSlug, payload)\<close>.
\<close>

definition handleSaveChanges_begin :: "pv_state \<Rightarrow> pv_state" where
  "handleSaveChanges_begin s =
     (let s1 = s\<lparr>isLoadingSave := True, editError := None\<rparr>;
          payload = save_payload (heap s1 ! the (editData s1))
      in s1\<lparr>requests := SavePageData (pageSlug s1) payload # requests s1\<rparr>)"

text \<open>
  \<^verbatim>\<open>handleSaveChanges\<close> from the point where the save call has settled; \<open>refetch\<close> is
  how the call of \<^verbatim>\<open>await fetchData()\<close> after a successful save settles.
\<close>

definition handleSaveChanges_settle ::
  "unit outcome \<Rightarrow> page outcome \<Rightarrow> pv_state \<Rightarrow> pv_state" where
  "handleSaveChanges_settle saved refetch s =
     (case saved of
        Resolved u \<Rightarrow>
          if \<not> isMounted s then s
          else
            let s1 = addNotification (e_str ''Page saved successfully!'') Success 5000 s;
                s2 = s1\<lparr>isEditing := False\<rparr>;
                s3 = fetchData refetch s2
            in if isMounted s3 then s3\<lparr>isLoadingSave := False\<rparr> else s3
      | Rejected err \<Rightarrow>
          let s1 = s\<lparr>console := ErrorSaveFailed # console s\<rparr>
          in if \<not> isMounted s1 then s1
             else
               let errorMsg = save_error_message (err_data err);
                   s2 = s1\<lparr>editError := Some errorMsg\<rparr>;
                   s3 = addNotification errorMsg Error 5000 s2
               in s3\<lparr>isLoadingSave := False\<rparr>)"

text \<open>\<^verbatim>\<open>handleSaveChanges\<close> run to its end.\<close>

definition handleSaveChanges :: "unit outcome \<Rightarrow> page outcome \<Rightarrow> pv_state \<Rightarrow> pv_state" where
  "handleSaveChanges saved refetch s =
     (if \<not> isEditing s \<or> editData s = None
      then s\<lparr>console := WarnSaveNotEditing # console s\<rparr>
      else handleSaveChanges_settle saved refetch (handleSaveChanges_begin s))"

text \<open>
  \<^verbatim>\<open>handleToggleEdit\<close>; the two outcomes are those of the save it starts when the
  page is being edited.
\<close>

definition handleToggleEdit :: "unit outcome \<Rightarrow> page outcome \<Rightarrow> pv_state \<Rightarrow> pv_state" where
  "handleToggleEdit saved refetch s =
     (let s0 = s\<lparr>editError := None\<rparr>
      in if isEditing s0 then handleSaveChanges saved refetch s0
         else if \<not> canEdit s0
         then addNotification (e_str ''You do not have permission to edit this page.'')
                Warning 5000 s0
         else
           (case pageData s0 of
              Some a \<Rightarrow>
                let (b, s1) = json_copy a s0 in s1\<lparr>editData := Some b, isEditing := True\<rparr>
            | None \<Rightarrow>
                (case editData s0 of
                   Some c \<Rightarrow>
                     let (b, s1) = json_copy c s0 in s1\<lparr>editData := Some b, isEditing := True\<rparr>
                 | None \<Rightarrow> s0\<lparr>editData := None, isEditing := True\<rparr>)))"

text \<open>\<^verbatim>\<open>handleCancelEdit\<close>\<close>

definition handleCancelEdit :: "pv_state \<Rightarrow> pv_state" where
  "handleCancelEdit s =
     (let s1 = s\<lparr>isEditing := False, editError := None\<rparr>
      in case pageData s1 of
           Some a \<Rightarrow> let (b, s2) = json_copy a s1 in s2\<lparr>editData := Some b\<rparr>
         | None \<Rightarrow> s1\<lparr>editData := None\<rparr>)"

section \<open>Local edits\<close>

text \<open>
  \<^verbatim>\<open>handleCellChange(rowIndex, colIndex, value)\<close>, for the array indices and the
  string that \<^verbatim>\<open>DataTable\<close> and \<^verbatim>\<open>EditableCell\<close> pass. Its guard
  \<^verbatim>\<open>newData.rows[rowIndex]?.cells\<close> holds exactly when the row exists, the cells of a
  row being an array.
\<close>

definition handleCellChange :: "nat \<Rightarrow> nat \<Rightarrow> string \<Rightarrow> pv_state \<Rightarrow> pv_state" where
  "handleCellChange rowIndex colIndex v s =
     (if \<not> isEditing s then s
      else case editData s of
        None \<Rightarrow> s
      | Some prevData \<Rightarrow>
          let (newData, s1) = json_copy prevData s;
              d = heap s1 ! newData
          in if rowIndex < length (rows d)
             then
               let r = rows d ! rowIndex;
                   r' = r\<lparr>cells := array_set (cells r) colIndex (Some v)\<rparr>
               in s1\<lparr>heap := (heap s1)[newData := d\<lparr>rows := (rows d)[rowIndex := r']\<rparr>],
                     editData := Some newData\<rparr>
             else s1\<lparr>console := WarnNonExistentCell rowIndex colIndex # console s1,
                     editData := Some newData\<rparr>)"

text \<open>\<^verbatim>\<open>handleAddRow()\<close>\<close>

definition handleAddRow :: "pv_state \<Rightarrow> pv_state" where
  "handleAddRow s =
     (if \<not> isEditing s \<or> editData s = None then s
      else
        let (newData, s1) = json_copy (the (editData s)) s;
            d = heap s1 ! newData;
            newOrder = (if length (rows d) > 0
                        then double_add (Math_max 0 (map row_order (rows d))) 1 else 1);
            newRow = \<lparr>row_id = JNull, row_order = newOrder,
                      cells = replicate (length (columns d)) (Some [])\<rparr>
        in s1\<lparr>heap := (heap s1)[newData := d\<lparr>rows := rows d @ [newRow]\<rparr>],
              editData := Some newData\<rparr>)"

text \<open>
  \<^verbatim>\<open>newData.rows.forEach((row, index) => { row.order = index + 1; })\<close>, with the
  index of the first row of the list as argument.
\<close>

fun renumber :: "nat \<Rightarrow> row list \<Rightarrow> row list" where
  "renumber i [] = []"
| "renumber i (r # rs) = r\<lparr>row_order := int i + 1\<rparr> # renumber (Suc i) rs"

text \<open>\<^verbatim>\<open>handleDeleteRow(rowIdToDelete)\<close>\<close>

definition handleDeleteRow :: "jsval \<Rightarrow> pv_state \<Rightarrow> pv_state" where
  "handleDeleteRow rowIdToDelete s =
     (if \<not> isEditing s \<or> editData s = None then s
      else
        let (newData, s1) = json_copy (the (editData s)) s;
            d = heap s1 ! newData;
            kept = filter (\<lambda>row. row_id row \<noteq> rowIdToDelete) (rows d)
        in s1\<lparr>heap := (heap s1)[newData := d\<lparr>rows := renumber 0 kept\<rparr>],
              editData := Some newData\<rparr>)"

section \<open>The ToDo view\<close>

text \<open>A row of the source page with the \<^verbatim>\<open>status\<close> property added.\<close>

record todo_row = row +
  status :: jsval

record status_entry =
  st_row_id :: jsval
  st_status :: jsval

record todo_info =
  todo_name :: string
  source_page_slug :: string
  statuses :: "status_entry list"

record todo_display =
  todoInfo :: todo_info
  sourcePageInfo :: page
  todo_rows :: "todo_row list"

text \<open>
  The state of \<^verbatim>\<open>TodoView\<close>. Its handlers build new objects and never write into
  an existing one, so the state holds values.
\<close>

record tv_state = view_state +
  todoId :: string
  todoDisplayData :: "todo_display option"
  tv_error :: "errdata option"

text \<open>
  \<^verbatim>\<open>new Map(pairs)\<close> and \<^verbatim>\<open>map.get(key)\<close>: a later pair replaces an earlier one
  with the same key, and a missing key reads as \<open>undefined\<close>.
\<close>

definition Map_new :: "(jsval \<times> jsval) list \<Rightarrow> (jsval \<rightharpoonup> jsval)" where
  "Map_new pairs = fold (\<lambda>(k, v) m. m(k \<mapsto> v)) pairs Map.empty"

definition Map_get :: "(jsval \<rightharpoonup> jsval) \<Rightarrow> jsval \<Rightarrow> jsval" where
  "Map_get m k = (case m k of None \<Rightarrow> JUndefined | Some v \<Rightarrow> v)"

text \<open>Step 3 of \<^verbatim>\<open>fetchTodoData\<close>: the source rows with their statuses.\<close>

definition combinedRows :: "status_entry list \<Rightarrow> row list \<Rightarrow> todo_row list" where
  "combinedRows sts rs =
     (let statusMap = Map_new (map (\<lambda>s. (st_row_id s, st_status s)) sts)
      in map (\<lambda>row. \<lparr>row_id = row_id row, row_order = row_order row, cells = cells row,
                      status = js_or (Map_get statusMap (row_id row)) (JStr ''NOT_STARTED'')\<rparr>)
           rs)"

text \<open>The \<^verbatim>\<open>catch\<close> and \<^verbatim>\<open>finally\<close> blocks of \<^verbatim>\<open>fetchTodoData\<close>.\<close>

definition fetchTodoData_catch :: "js_error \<Rightarrow> tv_state \<Rightarrow> tv_state" where
  "fetchTodoData_catch err s =
     (if err_name err = ''CanceledError''
      then (if isMounted s then s\<lparr>loading := False\<rparr> else s)
      else
        let s1 = s\<lparr>console := ErrorFetchFailed # console s\<rparr>
        in if \<not> isMounted s1 then s1
           else
             let errorMsg =
                   e_or (e_or (get_prop (err_data err) ''detail'') (get_prop (err_data err) ''error''))
                     (e_str ''Could not load ToDo data.'');
                 s2 = addNotification errorMsg Error 5000 (s1\<lparr>tv_error := Some errorMsg\<rparr>);
                 s3 = (if err_status err = Some 404
                       then s2\<lparr>tv_error :=
                                  Some (e_str ''ToDo list or its source page not found.'')\<rparr>
                       else s2);
                 s4 = (if err_status err = Some 403
                       then s3\<lparr>tv_error :=
                                  Some (e_str ''You do not have permission to view this ToDo list.'')\<rparr>
                       else s3)
             in s4\<lparr>loading := False\<rparr>)"

text \<open>
  \<^verbatim>\<open>fetchTodoData\<close> run to its end: \<open>todoResponse\<close> and \<open>pageResponse\<close> are how its
  two calls settle, the second being made only when the first has resolved.
\<close>

definition fetchTodoData :: "todo_info outcome \<Rightarrow> page outcome \<Rightarrow> tv_state \<Rightarrow> tv_state" where
  "fetchTodoData todoResponse pageResponse s =
     (if \<not> isMounted s then s
      else
        let s1 = s\<lparr>loading := True, tv_error := None,
                   requests := GetTodoDetail (todoId s) # requests s\<rparr>
        in case todoResponse of
             Rejected err \<Rightarrow> fetchTodoData_catch err s1
           | Resolved fetchedTodo \<Rightarrow>
               let s2 = s1\<lparr>requests := GetPageData (source_page_slug fetchedTodo) # requests s1\<rparr>
               in (case pageResponse of
                     Rejected err \<Rightarrow> fetchTodoData_catch err s2
                   | Resolved sourcePage \<Rightarrow>
                       let finalData =
                             \<lparr>todoInfo = fetchedTodo, sourcePageInfo = sourcePage,
                              todo_rows = combinedRows (statuses fetchedTodo) (rows sourcePage)\<rparr>
                       in s2\<lparr>todoDisplayData := Some finalData, loading := False\<rparr>))"

text \<open>
  \<^verbatim>\<open>handleStatusChange(rowId, newStatus)\<close> up to its
  \<^verbatim>\<open>await api.updateTodoStatus(todoId, rowId, newStatus)\<close>: the snapshot
  \<^verbatim>\<open>previousData\<close> it keeps (\<open>None\<close> when it returns at once), and the state with the
  optimistic update.
\<close>

definition handleStatusChange_begin ::
  "jsval \<Rightarrow> jsval \<Rightarrow> tv_state \<Rightarrow> todo_display option \<times> tv_state" where
  "handleStatusChange_begin rowId newStatus s =
     (case todoDisplayData s of
        None \<Rightarrow> (None, s)
      | Some prevData \<Rightarrow>
          let previousData = prevData;
              newRows = map (\<lambda>row. if row_id row = rowId then row\<lparr>status := newStatus\<rparr> else row)
                          (todo_rows prevData)
          in (Some previousData,
              s\<lparr>todoDisplayData := Some (prevData\<lparr>todo_rows := newRows\<rparr>),
                requests := UpdateTodoStatus (todoId s) rowId newStatus # requests s\<rparr>))"

text \<open>\<^verbatim>\<open>handleStatusChange\<close> from the point where the call has settled.\<close>

definition handleStatusChange_settle ::
  "todo_display \<Rightarrow> unit outcome \<Rightarrow> tv_state \<Rightarrow> tv_state" where
  "handleStatusChange_settle previousData updated s =
     (case updated of
        Resolved u \<Rightarrow> addNotification (e_str ''Status updated!'') Success 2000 s
      | Rejected err \<Rightarrow>
          let s1 = s\<lparr>console := ErrorStatusFailed # console s\<rparr>;
              errorMsg = e_or (get_prop (err_data err) ''detail'') (e_str ''Failed to update status.'');
              s2 = addNotification errorMsg Error 5000 s1
          in if isMounted s2 then s2\<lparr>todoDisplayData := Some previousData\<rparr> else s2)"

text \<open>\<^verbatim>\<open>handleStatusChange\<close> run to its end.\<close>

definition handleStatusChange :: "jsval \<Rightarrow> jsval \<Rightarrow> unit outcome \<Rightarrow> tv_state \<Rightarrow> tv_state" where
  "handleStatusChange rowId newStatus updated s =
     (case handleStatusChange_begin rowId newStatus s of
        (None, s1) \<Rightarrow> s1
      | (Some previousData, s1) \<Rightarrow> handleStatusChange_settle previousData updated s1)"

section \<open>The gateway's request interceptor\<close>

datatype js_exn = URIError

text \<open>
  \<^verbatim>\<open>decodeURIComponent(s)\<close>: a string without \<open>%\<close> (code unit 37) has nothing to decode
  and is returned as it is; \<open>pct\<close> is the platform's decoding of a string with escapes,
  which throws \<^verbatim>\<open>URIError\<close> on a malformed one.
\<close>

definition decodeURIComponent ::
  "(ustring \<Rightarrow> js_exn + ustring) \<Rightarrow> ustring \<Rightarrow> js_exn + ustring" where
  "decodeURIComponent pct s = (if 37 \<in> set s then pct s else Inr s)"

text \<open>\<^verbatim>\<open>s.split(c)\<close> for a separator of one code unit.\<close>

fun split :: "'a \<Rightarrow> 'a list \<Rightarrow> 'a list list" where
  "split c [] = [[]]"
| "split c (x # xs) =
     (if x = c then [] # split c xs
      else (case split c xs of y # ys \<Rightarrow> (x # y) # ys | [] \<Rightarrow> [[x]]))"

text \<open>
  The code units \<^verbatim>\<open>String.prototype.trim\<close> strips: the white space of ECMAScript
  (TAB, VT, FF, SP, NBSP U+00A0, ZWNBSP U+FEFF and the space separators U+1680,
  U+2000 to U+200A, U+202F, U+205F, U+3000) and its line terminators (LF, CR,
  U+2028, U+2029).
\<close>

definition is_space :: "nat \<Rightarrow> bool" where
  "is_space c =
     (c \<in> set [0x0009, 0x000A, 0x000B, 0x000C, 0x000D, 0x0020, 0x00A0, 0x1680, 0x2028,
                0x2029, 0x202F, 0x205F, 0x3000, 0xFEFF]
      \<or> (0x2000 \<le> c \<and> c \<le> 0x200A))"

text \<open>\<^verbatim>\<open>s.trim()\<close>\<close>

definition trim :: "ustring \<Rightarrow> ustring" where
  "trim s = rev (dropWhile is_space (rev (dropWhile is_space s)))"

text \<open>
  \<^verbatim>\<open>s.toUpperCase()\<close>: in a string of ASCII the letters \<open>a\<close> to \<open>z\<close> become \<open>A\<close> to \<open>Z\<close>
  and nothing else changes; \<open>upper\<close> is the platform's mapping of a string with a code
  unit outside ASCII.
\<close>

definition toUpperCase :: "(ustring \<Rightarrow> ustring) \<Rightarrow> ustring \<Rightarrow> ustring" where
  "toUpperCase upper s =
     (if list_all (\<lambda>c. c < 128) s
      then map (\<lambda>c. if 97 \<le> c \<and> c \<le> 122 then c - 32 else c) s
      else upper s)"

text \<open>The loop of \<^verbatim>\<open>getCookie\<close> over the pieces of \<^verbatim>\<open>document.cookie\<close>.\<close>

fun find_cookie ::
  "(ustring \<Rightarrow> js_exn + ustring) \<Rightarrow> ustring \<Rightarrow> ustring list \<Rightarrow> js_exn + ustring option" where
  "find_cookie pct name [] = Inr None"
| "find_cookie pct name (c # cs) =
     (let cookie = trim c
      in if take (length name + 1) cookie = name @ ascii ''=''
         then (case decodeURIComponent pct (drop (length name + 1) cookie) of
                 Inl e \<Rightarrow> Inl e
               | Inr v \<Rightarrow> Inr (Some v))
         else find_cookie pct name cs)"

text \<open>\<^verbatim>\<open>getCookie(name)\<close>, reading \<^verbatim>\<open>document.cookie\<close>; \<open>None\<close> is \<open>null\<close>.\<close>

definition getCookie ::
  "(ustring \<Rightarrow> js_exn + ustring) \<Rightarrow> ustring \<Rightarrow> ustring \<Rightarrow> js_exn + ustring option" where
  "getCookie pct document_cookie name =
     (if document_cookie \<noteq> [] then find_cookie pct name (split 59 document_cookie)
      else Inr None)"

record req_config =
  cfg_method :: "ustring option"
  cfg_url :: string
  cfg_headers :: "string \<rightharpoonup> ustring"

text \<open>
  The request interceptor: the configuration it returns and what it writes to the
  console, or the exception it throws.
\<close>

definition request_interceptor ::
  "(ustring \<Rightarrow> ustring) \<Rightarrow> (ustring \<Rightarrow> js_exn + ustring) \<Rightarrow> ustring \<Rightarrow> req_config
     \<Rightarrow> js_exn + (req_config \<times> console_msg list)" where
  "request_interceptor upper pct document_cookie config =
     (case map_option (toUpperCase upper) (cfg_method config) of
        None \<Rightarrow> Inr (config, [])
      | Some method \<Rightarrow>
          if method \<noteq> [] \<and>
             method \<notin> set [ascii ''GET'', ascii ''HEAD'', ascii ''OPTIONS'', ascii ''TRACE'']
          then (case getCookie pct document_cookie (ascii ''csrftoken'') of
                  Inl e \<Rightarrow> Inl e
                | Inr None \<Rightarrow> Inr (config, [WarnCsrfMissing method])
                | Inr (Some csrfToken) \<Rightarrow>
                    if csrfToken \<noteq> []
                    then Inr (config\<lparr>cfg_headers := (cfg_headers config)(''X-CSRFToken'' \<mapsto> csrfToken)\<rparr>,
                              [])
                    else Inr (config, [WarnCsrfMissing method]))
          else Inr (config, []))"

section \<open>Runs of the page view\<close>

datatype edit_op = CellEdit nat nat string | AddRow | DeleteRow jsval

fun apply_edit :: "edit_op \<Rightarrow> pv_state \<Rightarrow> pv_state" where
  "apply_edit (CellEdit rowIndex colIndex v) s = handleCellChange rowIndex colIndex v s"
| "apply_edit AddRow s = handleAddRow s"
| "apply_edit (DeleteRow rowId) s = handleDeleteRow rowId s"

definition run_edits :: "edit_op list \<Rightarrow> pv_state \<Rightarrow> pv_state" where
  "run_edits ops s = fold apply_edit ops s"

text \<open>What the user can do on a page, with the outcomes of the calls an action makes.\<close>

datatype event =
  Edit edit_op
| ToggleEdit "unit outcome" "page outcome"
| SaveChanges "unit outcome" "page outcome"
| CancelEdit

fun step :: "event \<Rightarrow> pv_state \<Rightarrow> pv_state" where
  "step (Edit e) s = apply_edit e s"
| "step (ToggleEdit saved refetch) s = handleToggleEdit saved refetch s"
| "step (SaveChanges saved refetch) s = handleSaveChanges saved refetch s"
| "step CancelEdit s = handleCancelEdit s"

definition run :: "event list \<Rightarrow> pv_state \<Rightarrow> pv_state" where
  "run evs s = fold step evs s"

text \<open>An action whose save call and whose re-fetch both resolve.\<close>

fun saves_and_refetches :: "event \<Rightarrow> bool" where
  "saves_and_refetches (SaveChanges (Resolved u) (Resolved p)) = True"
| "saves_and_refetches (ToggleEdit (Resolved u) (Resolved p)) = True"
| "saves_and_refetches e = False"

section \<open>A page and a ToDo list to run the handlers on\<close>

definition page_AB :: page where
  "page_AB =
     \<lparr>columns = [\<lparr>col_id = JNum 1, col_name = ''A'', col_order = 1, col_width = 150\<rparr>,
                 \<lparr>col_id = JNum 2, col_name = ''B'', col_order = 2, col_width = 150\<rparr>],
      rows = [\<lparr>row_id = JNum 1, row_order = 1, cells = [Some ''x'', Some ''y'']\<rparr>]\<rparr>"

text \<open>The page view after \<open>page_AB\<close> has been fetched, showing it read-only.\<close>

definition viewing_AB :: pv_state where
  "viewing_AB =
     \<lparr>isMounted = True, loading = False, notifications = [], next_uuid = 0, requests = [],
      console = [], pageSlug = ''ab'', heap = [page_AB, page_AB], pageData = Some 0,
      editData = Some 1, pageError = None, editError = None, isEditing = False,
      canEdit = True, isLoadingSave = False\<rparr>"

definition editing_AB :: pv_state where
  "editing_AB = viewing_AB\<lparr>isEditing := True\<rparr>"

text \<open>The ToDo view of the spec's scenario: source rows 5 and 6, row 5 completed.\<close>

definition page_56 :: page where
  "page_56 =
     \<lparr>columns = [\<lparr>col_id = JNum 1, col_name = ''Task'', col_order = 1, col_width = 150\<rparr>],
      rows = [\<lparr>row_id = JNum 5, row_order = 1, cells = [Some ''a'']\<rparr>,
              \<lparr>row_id = JNum 6, row_order = 2, cells = [Some ''b'']\<rparr>]\<rparr>"

definition todo_56 :: todo_info where
  "todo_56 =
     \<lparr>todo_name = ''todo'', source_page_slug = ''p56'',
      statuses = [\<lparr>st_row_id = JNum 5, st_status = JStr ''COMPLETED''\<rparr>]\<rparr>"

definition display_56 :: todo_display where
  "display_56 =
     \<lparr>todoInfo = todo_56, sourcePageInfo = page_56,
      todo_rows = [\<lparr>row_id = JNum 5, row_order = 1, cells = [Some ''a''],
                    status = JStr ''COMPLETED''\<rparr>,
                   \<lparr>row_id = JNum 6, row_order = 2, cells = [Some ''b''],
                    status = JStr ''NOT_STARTED''\<rparr>]\<rparr>"

definition loaded_56 :: tv_state where
  "loaded_56 =
     \<lparr>isMounted = True, loading = False, notifications = [], next_uuid = 0, requests = [],
      console = [], todoId = ''7'', todoDisplayData = Some display_56, tv_error = None\<rparr>"

text \<open>
  Request configurations, and a platform that is asked for nothing: its decoder throws
  on every string with an escape, its upper-casing leaves a string that is not ASCII
  as it is.
\<close>

definition post_cfg :: req_config where
  "post_cfg =
     \<lparr>cfg_method = Some (ascii ''post''), cfg_url = ''/pages/ab/save/'',
      cfg_headers = [''Content-Type'' \<mapsto> ascii ''application/json'']\<rparr>"

definition get_cfg :: req_config where
  "get_cfg =
     \<lparr>cfg_method = Some (ascii ''get''), cfg_url = ''/pages/ab/data/'',
      cfg_headers = [''Content-Type'' \<mapsto> ascii ''application/json'']\<rparr>"

definition reject_escapes :: "ustring \<Rightarrow> js_exn + ustring" where
  "reject_escapes s = Inl URIError"

definition keep_non_ascii :: "ustring \<Rightarrow> ustring" where
  "keep_non_ascii s = s"

text \<open>
  A page being edited whose rows have the ids 1, 2, 3 and the orders 4, 2, 9, and one
  whose only row has the order \<open>2\<^sup>5\<^sup>3\<close>.
\<close>

definition page_gaps :: page where
  "page_gaps =
     \<lparr>columns = [\<lparr>col_id = JNum 1, col_name = ''A'', col_order = 1, col_width = 150\<rparr>],
      rows = [\<lparr>row_id = JNum 1, row_order = 4, cells = [Some ''p'']\<rparr>,
              \<lparr>row_id = JNum 2, row_order = 2, cells = [Some ''q'']\<rparr>,
              \<lparr>row_id = JNum 3, row_order = 9, cells = [Some ''r'']\<rparr>]\<rparr>"

definition editing_gaps :: pv_state where
  "editing_gaps = editing_AB\<lparr>heap := [page_gaps, page_gaps]\<rparr>"

definition page_big :: page where
  "page_big =
     \<lparr>columns = [\<lparr>col_id = JNum 1, col_name = ''A'', col_order = 1, col_width = 150\<rparr>],
      rows = [\<lparr>row_id = JNum 1, row_order = 9007199254740992, cells = [Some ''p'']\<rparr>]\<rparr>"

definition editing_big :: pv_state where
  "editing_big = editing_AB\<lparr>heap := [page_big, page_big]\<rparr>"



text \<open>A rejection by the server with a \<open>detail\<close> message.\<close>

definition server_error :: js_error where
  "server_error = \<lparr>err_name = ''AxiosError'', err_status = Some 500,
                    err_data = EObj [(''detail'', e_str ''Server error.'')]\<rparr>"

section \<open>Vocabulary of the properties\<close>

text \<open>
  The piece of \<^verbatim>\<open>document.cookie\<close> that \<^verbatim>\<open>getCookie('csrftoken')\<close> stops at, if there
  is one: the first piece between semicolons that, trimmed, begins with
  \<^verbatim>\<open>csrftoken=\<close>. The cookie's value is the rest of the trimmed piece.
\<close>

definition csrf_piece :: "ustring \<Rightarrow> ustring option" where
  "csrf_piece document_cookie =
     find (\<lambda>c. take 10 (trim c) = ascii ''csrftoken='') (split 59 document_cookie)"

text \<open>
  \<open>keeps s s'\<close>: from \<open>s\<close> to \<open>s'\<close> the canonical reference is the same, every object
  allocated in \<open>s\<close> has the content it had, and the addresses held by \<open>s'\<close> are
  allocated.
\<close>

definition keeps :: "pv_state \<Rightarrow> pv_state \<Rightarrow> bool" where
  "keeps s s' = (refs_ok s' \<and> pageData s' = pageData s \<and> take (length (heap s)) (heap s') = heap s)"

section \<open>Properties\<close>

lemma Math_max_Max: "Math_max a xs = Max (insert a (set xs))"
proof -
  have "fold max xs a = Max (insert a (set xs))" for a
  proof (induction xs arbitrary: a)
    case Nil
    show ?case by simp
  next
    case (Cons x xs)
    have "Max (insert (max x a) (set xs)) = Max (insert a (insert x (set xs)))"
      by (cases "set xs = {}") (simp_all add: max.commute max.assoc max.left_commute)
    with Cons show ?case by (simp add: insert_commute)
  qed
  then show ?thesis by (simp add: Math_max_def)
qed

lemma keeps_refl: "refs_ok s \<Longrightarrow> keeps s s"
  by (simp add: keeps_def)

lemma keeps_trans: "keeps s s' \<Longrightarrow> keeps s' s'' \<Longrightarrow> keeps s s''"
  unfolding keeps_def
  by (metis length_take nat_le_linear take_all take_take)

lemma handleCellChange_keeps: "refs_ok s \<Longrightarrow> keeps s (handleCellChange i j v s)"
  by (auto simp: keeps_def refs_ok_def handleCellChange_def json_copy_def alloc_def Let_def
      split: option.splits)

lemma handleAddRow_keeps: "refs_ok s \<Longrightarrow> keeps s (handleAddRow s)"
  by (auto simp: keeps_def refs_ok_def handleAddRow_def json_copy_def alloc_def Let_def
      split: option.splits)

lemma handleDeleteRow_keeps: "refs_ok s \<Longrightarrow> keeps s (handleDeleteRow rid s)"
  by (auto simp: keeps_def refs_ok_def handleDeleteRow_def json_copy_def alloc_def Let_def
      split: option.splits)

lemma handleCancelEdit_keeps: "refs_ok s \<Longrightarrow> keeps s (handleCancelEdit s)"
  by (auto simp: keeps_def refs_ok_def handleCancelEdit_def json_copy_def alloc_def Let_def
      split: option.splits)

lemma addNotification_fields [simp]:
  "heap (addNotification m t d s) = heap s"
  "pageData (addNotification m t d s) = pageData s"
  "editData (addNotification m t d s) = editData s"
  "isEditing (addNotification m t d s) = isEditing s"
  "isMounted (addNotification m t d s) = isMounted s"
  "requests (addNotification m t d s) = requests s"
  "console (addNotification m t d s) = console s"
  "editError (addNotification m t d s) = editError s"
  "pageError (addNotification m t d s) = pageError s"
  "canEdit (addNotification m t d s) = canEdit s"
  "isLoadingSave (addNotification m t d s) = isLoadingSave s"
  "loading (addNotification m t d s) = loading s"
  "pageSlug (addNotification m t d s) = pageSlug s"
  by (simp_all add: addNotification_def)

lemma fetchData_rejected_keeps: "refs_ok s \<Longrightarrow> keeps s (fetchData (Rejected err) s)"
  by (auto simp: keeps_def refs_ok_def fetchData_def fetchData_settle_def fetchData_begin_def
      Let_def split: option.splits)

lemma handleSaveChanges_keeps:
  "refs_ok s \<Longrightarrow> \<not> saves_and_refetches (SaveChanges saved refetch) \<Longrightarrow>
   keeps s (handleSaveChanges saved refetch s)"
proof (cases saved)
  case (Rejected err)
  assume "refs_ok s"
  with Rejected show ?thesis
    by (auto simp: keeps_def refs_ok_def handleSaveChanges_def handleSaveChanges_settle_def
        handleSaveChanges_begin_def Let_def split: option.splits)
next
  case (Resolved u)
  assume r: "refs_ok s" and n: "\<not> saves_and_refetches (SaveChanges saved refetch)"
  from n Resolved obtain err where e: "refetch = Rejected err"
    by (cases refetch) auto
  show ?thesis
  proof (cases "\<not> isEditing s \<or> editData s = None")
    case True
    with r show ?thesis
      by (auto simp: keeps_def refs_ok_def handleSaveChanges_def split: option.splits)
  next
    case False
    let ?s2 = "(addNotification (e_str ''Page saved successfully!'') Success 5000
                 (handleSaveChanges_begin s))\<lparr>isEditing := False\<rparr>"
    have k1: "keeps s ?s2" using r
      by (auto simp: keeps_def refs_ok_def handleSaveChanges_begin_def Let_def split: option.splits)
    then have "refs_ok ?s2" by (simp add: keeps_def)
    then have k2: "keeps ?s2 (fetchData (Rejected err) ?s2)"
      by (rule fetchData_rejected_keeps)
    have k3: "keeps s (fetchData (Rejected err) ?s2)"
      using keeps_trans [OF k1 k2] .
    have m: "isMounted (handleSaveChanges_begin s) = isMounted s"
      by (simp add: handleSaveChanges_begin_def Let_def)
    show ?thesis
    proof (cases "isMounted s")
      case True
      with False Resolved e k3 m show ?thesis
        by (auto simp: handleSaveChanges_def handleSaveChanges_settle_def Let_def keeps_def refs_ok_def
            split: option.splits)
    next
      case nm: False
      have "keeps s (handleSaveChanges_begin s)" using r
        by (auto simp: keeps_def refs_ok_def handleSaveChanges_begin_def Let_def split: option.splits)
      with False Resolved nm m show ?thesis
        by (auto simp: handleSaveChanges_def handleSaveChanges_settle_def)
    qed
  qed
qed

lemma handleToggleEdit_keeps:
  "refs_ok s \<Longrightarrow> \<not> saves_and_refetches (ToggleEdit saved refetch) \<Longrightarrow>
   keeps s (handleToggleEdit saved refetch s)"
proof -
  assume r: "refs_ok s" and n: "\<not> saves_and_refetches (ToggleEdit saved refetch)"
  let ?s0 = "s\<lparr>editError := None\<rparr>"
  have r0: "refs_ok ?s0" using r by (simp add: refs_ok_def split: option.splits)
  have k0: "keeps s ?s0" using r by (simp add: keeps_def refs_ok_def split: option.splits)
  from n have n': "\<not> saves_and_refetches (SaveChanges saved refetch)"
    by (cases saved; cases refetch) simp_all
  show ?thesis
  proof (cases "isEditing s")
    case True
    have "keeps ?s0 (handleSaveChanges saved refetch ?s0)"
      using r0 n' by (rule handleSaveChanges_keeps)
    with k0 have "keeps s (handleSaveChanges saved refetch ?s0)" by (rule keeps_trans)
    with True show ?thesis by (simp add: handleToggleEdit_def Let_def)
  next
    case False
    with r show ?thesis
      by (auto simp: keeps_def refs_ok_def handleToggleEdit_def json_copy_def alloc_def Let_def
          split: option.splits)
  qed
qed

lemma step_keeps: "refs_ok s \<Longrightarrow> \<not> saves_and_refetches e \<Longrightarrow> keeps s (step e s)"
proof (cases e)
  case (Edit x)
  assume "refs_ok s"
  with Edit show ?thesis
    by (cases x) (simp_all add: handleCellChange_keeps handleAddRow_keeps handleDeleteRow_keeps)
next
  case (ToggleEdit a b)
  assume "refs_ok s" "\<not> saves_and_refetches e"
  with ToggleEdit show ?thesis by (simp add: handleToggleEdit_keeps)
next
  case (SaveChanges a b)
  assume "refs_ok s" "\<not> saves_and_refetches e"
  with SaveChanges show ?thesis by (simp add: handleSaveChanges_keeps)
next
  case CancelEdit
  assume "refs_ok s"
  with CancelEdit show ?thesis by (simp add: handleCancelEdit_keeps)
qed

lemma run_keeps:
  "refs_ok s \<Longrightarrow> \<forall>e\<in>set evs. \<not> saves_and_refetches e \<Longrightarrow> keeps s (run evs s)"
proof (induction evs arbitrary: s)
  case Nil
  then show ?case by (simp add: run_def keeps_refl)
next
  case (Cons e evs)
  have k1: "keeps s (step e s)" using Cons.prems by (simp add: step_keeps)
  then have "refs_ok (step e s)" by (simp add: keeps_def)
  then have "keeps (step e s) (run evs (step e s))" using Cons by simp
  with k1 have "keeps s (run evs (step e s))" by (rule keeps_trans)
  then show ?case by (simp add: run_def)
qed

lemma keeps_canonical: "refs_ok s \<Longrightarrow> keeps s s' \<Longrightarrow> canonical s' = canonical s"
proof -
  assume r: "refs_ok s" and k: "keeps s s'"
  show ?thesis
  proof (cases "pageData s")
    case None
    with k show ?thesis by (simp add: canonical_def deref_def keeps_def)
  next
    case (Some a)
    with r have a: "a < length (heap s)" by (simp add: refs_ok_def)
    from k have t: "take (length (heap s)) (heap s') = heap s" by (simp add: keeps_def)
    have "heap s' ! a = take (length (heap s)) (heap s') ! a" using a by simp
    with t have "heap s' ! a = heap s ! a" by simp
    with Some k show ?thesis by (simp add: canonical_def deref_def keeps_def)
  qed
qed

lemma editBuffer_SomeD:
  "editBuffer s = Some d \<Longrightarrow> \<exists>a. editData s = Some a \<and> heap s ! a = d"
  by (auto simp: editBuffer_def deref_def split: option.splits)

lemma renumber_keeps:
  "map (\<lambda>r. (row_id r, cells r)) (renumber i rs) = map (\<lambda>r. (row_id r, cells r)) rs"
  by (induction rs arbitrary: i) simp_all

lemma renumber_length: "length (renumber i rs) = length rs"
  by (induction rs arbitrary: i) simp_all

lemma renumber_upto:
  "map row_order (renumber i rs) = [int i + 1..int i + int (length rs)]"
proof (induction rs arbitrary: i)
  case Nil
  show ?case by simp
next
  case (Cons r rs)
  have "[int i + 1..int i + int (length (r # rs))] =
          (int i + 1) # [int (Suc i) + 1..int (Suc i) + int (length rs)]"
    by (subst upto_rec1) (simp_all add: algebra_simps)
  with Cons show ?case by simp
qed


lemma renumber_id_set: "row_id ` set (renumber i rs) = row_id ` set rs"
  by (induction rs arbitrary: i) simp_all

lemma renumber_not_id:
  "\<forall>r\<in>set (renumber i (filter (\<lambda>r. row_id r \<noteq> rowId) rs)). row_id r \<noteq> rowId"
proof
  fix r
  assume "r \<in> set (renumber i (filter (\<lambda>r. row_id r \<noteq> rowId) rs))"
  then have "row_id r \<in> row_id ` set (renumber i (filter (\<lambda>r. row_id r \<noteq> rowId) rs))"
    by (rule imageI)
  then have "row_id r \<in> row_id ` set (filter (\<lambda>r. row_id r \<noteq> rowId) rs)"
    by (simp only: renumber_id_set)
  then show "row_id r \<noteq> rowId" by auto
qed

lemma editing_AB_buffer: "editBuffer editing_AB = Some page_AB"
  by (simp add: editing_AB_def viewing_AB_def editBuffer_def deref_def)

lemma editing_AB_editing: "isEditing editing_AB"
  by (simp add: editing_AB_def viewing_AB_def)

text \<open>
  C3. In edit mode, after \<^verbatim>\<open>deleteRow(rowId)\<close> no row of the edit buffer has the id
  \<open>rowId\<close>, and the orders of the \<open>N\<close> rows left are \<open>1..N\<close> in the order of the array,
  whatever their orders were. The rows left are the rows with another id, in the order
  they had, with their ids and cells; the columns are as before.
\<close>

theorem deleteRow_removes_and_renumbers:
  assumes "isEditing s" and "editBuffer s = Some d"
  shows "\<exists>d'. editBuffer (handleDeleteRow rowId s) = Some d' \<and>
           columns d' = columns d \<and>
           (\<forall>r\<in>set (rows d'). row_id r \<noteq> rowId) \<and>
           map row_order (rows d') = [1..int (length (rows d'))] \<and>
           map (\<lambda>r. (row_id r, cells r)) (rows d') =
             map (\<lambda>r. (row_id r, cells r)) (filter (\<lambda>r. row_id r \<noteq> rowId) (rows d))"
proof -
  from assms(2) obtain a where a: "editData s = Some a" "heap s ! a = d"
    using editBuffer_SomeD by blast
  let ?kept = "filter (\<lambda>r. row_id r \<noteq> rowId) (rows d)"
  let ?d' = "d\<lparr>rows := renumber 0 ?kept\<rparr>"
  have b: "editBuffer (handleDeleteRow rowId s) = Some ?d'"
    using assms(1) a
    by (simp add: handleDeleteRow_def json_copy_def alloc_def editBuffer_def deref_def Let_def)
  have rows_eq: "rows ?d' = renumber 0 ?kept" by simp
  show ?thesis
  proof (intro exI [of _ ?d'] conjI)
    show "editBuffer (handleDeleteRow rowId s) = Some ?d'" by (rule b)
    show "columns ?d' = columns d" by simp
    show "\<forall>r\<in>set (rows ?d'). row_id r \<noteq> rowId"
      unfolding rows_eq by (rule renumber_not_id)
    show "map row_order (rows ?d') = [1..int (length (rows ?d'))]"
      unfolding rows_eq using renumber_upto [of 0 ?kept] by (simp add: renumber_length)
    show "map (\<lambda>r. (row_id r, cells r)) (rows ?d') = map (\<lambda>r. (row_id r, cells r)) ?kept"
      unfolding rows_eq by (rule renumber_keeps)
  qed
qed

text \<open>
  C4, as the code has it. In edit mode \<^verbatim>\<open>cellEdit(rowIndex, colIndex, value)\<close> with
  \<open>rowIndex\<close> out of bounds leaves the content of the edit buffer as it is and writes
  one warning to the console; no notification is added and no error state is set. With
  \<open>rowIndex\<close> in bounds it sets \<^verbatim>\<open>rows[rowIndex].cells[colIndex]\<close> to \<open>value\<close> and nothing
  else: a \<open>colIndex\<close> inside the row's cells replaces that cell, a \<open>colIndex\<close> at or
  past their end makes the cells array grow to \<open>colIndex + 1\<close> slots, the new slots
  before \<open>colIndex\<close> empty, and no warning is written.
\<close>

theorem cellEdit_sets_cell_or_ignores_row:
  assumes "isEditing s" and "editBuffer s = Some d"
  shows "editBuffer (handleCellChange rowIndex colIndex v s) =
           Some (if rowIndex < length (rows d)
                 then d\<lparr>rows := (rows d)[rowIndex := (rows d ! rowIndex)\<lparr>cells :=
                        (if colIndex < length (cells (rows d ! rowIndex))
                         then (cells (rows d ! rowIndex))[colIndex := Some v]
                         else cells (rows d ! rowIndex)
                                @ replicate (colIndex - length (cells (rows d ! rowIndex))) None
                                @ [Some v])\<rparr>]\<rparr>
                 else d) \<and>
         console (handleCellChange rowIndex colIndex v s) =
           (if rowIndex < length (rows d) then console s
            else WarnNonExistentCell rowIndex colIndex # console s) \<and>
         notifications (handleCellChange rowIndex colIndex v s) = notifications s \<and>
         editError (handleCellChange rowIndex colIndex v s) = editError s \<and>
         pageError (handleCellChange rowIndex colIndex v s) = pageError s"
proof -
  from assms(2) obtain a where a: "editData s = Some a" "heap s ! a = d"
    using editBuffer_SomeD by blast
  show ?thesis
    using assms(1) a
    by (simp add: handleCellChange_def json_copy_def alloc_def editBuffer_def deref_def
        array_set_def Let_def)
qed

theorem cellEdit_witness:
  "isEditing editing_AB \<and> editBuffer editing_AB = Some page_AB \<and>
   editBuffer (handleCellChange 0 1 ''z'' editing_AB) =
     Some (page_AB\<lparr>rows := [\<lparr>row_id = JNum 1, row_order = 1, cells = [Some ''x'', Some ''z'']\<rparr>]\<rparr>) \<and>
   editBuffer (handleCellChange 5 0 ''z'' editing_AB) = Some page_AB \<and>
   console (handleCellChange 5 0 ''z'' editing_AB) = [WarnNonExistentCell 5 0] \<and>
   notifications (handleCellChange 5 0 ''z'' editing_AB) = []"
proof -
  have 1: "editBuffer (handleCellChange 0 1 ''z'' editing_AB) =
     Some (page_AB\<lparr>rows := [\<lparr>row_id = JNum 1, row_order = 1, cells = [Some ''x'', Some ''z'']\<rparr>]\<rparr>)"
    using cellEdit_sets_cell_or_ignores_row [OF editing_AB_editing editing_AB_buffer, of 0 1 "''z''"]
    by (simp add: page_AB_def)
  have 2: "editBuffer (handleCellChange 5 0 ''z'' editing_AB) = Some page_AB \<and>
     console (handleCellChange 5 0 ''z'' editing_AB) = [WarnNonExistentCell 5 0] \<and>
     notifications (handleCellChange 5 0 ''z'' editing_AB) = []"
    using cellEdit_sets_cell_or_ignores_row [OF editing_AB_editing editing_AB_buffer, of 5 0 "''z''"]
    by (simp add: page_AB_def editing_AB_def viewing_AB_def)
  from 1 2 show ?thesis by (simp add: editing_AB_editing editing_AB_buffer)
qed

text \<open>
  C4 as stated fails: on the page with columns A, B and the row \<open>x, y\<close>, the call
  \<^verbatim>\<open>cellEdit(0, 2, "z")\<close> has \<open>colIndex\<close> out of bounds, and the edit buffer is changed
  (the row has the cells \<open>x, y, z\<close>) without a warning.
\<close>

theorem cellEdit_column_past_end_changes_buffer:
  "isEditing editing_AB \<and> editBuffer editing_AB = Some page_AB \<and>
   length (columns page_AB) = 2 \<and> length (cells (rows page_AB ! 0)) = 2 \<and>
   editBuffer (handleCellChange 0 2 ''z'' editing_AB) =
     Some (page_AB\<lparr>rows := [\<lparr>row_id = JNum 1, row_order = 1,
                                cells = [Some ''x'', Some ''y'', Some ''z'']\<rparr>]\<rparr>) \<and>
   editBuffer (handleCellChange 0 2 ''z'' editing_AB) \<noteq> editBuffer editing_AB \<and>
   console (handleCellChange 0 2 ''z'' editing_AB) = console editing_AB"
  by (simp add: handleCellChange_def json_copy_def alloc_def editBuffer_def deref_def
      array_set_def Let_def editing_AB_def viewing_AB_def page_AB_def)

lemma run_edits_run: "run_edits ops s = run (map Edit ops) s"
  unfolding run_edits_def run_def by (induction ops arbitrary: s) simp_all

lemma run_edits_keeps: "refs_ok s \<Longrightarrow> keeps s (run_edits ops s)"
  by (simp add: run_edits_run run_keeps)

text \<open>
  C1. Whatever sequence of \<^verbatim>\<open>cellEdit\<close>, \<^verbatim>\<open>addRow\<close> and \<^verbatim>\<open>deleteRow\<close> runs, the
  canonical page is not mutated: \<open>pageData\<close> holds the same object, the content of that
  object is the same, and so is the content of every object that was allocated before
  (each edit writes into a copy it has just made). The same holds for every sequence
  of edits, saves, toggles and cancels in which no save resolves and is followed by a
  re-fetch that resolves: only those change the canonical page.
\<close>

theorem canonical_page_not_mutated:
  assumes "refs_ok s" and "\<forall>e\<in>set evs. \<not> saves_and_refetches e"
  shows "pageData (run_edits ops s) = pageData s \<and>
         canonical (run_edits ops s) = canonical s \<and>
         take (length (heap s)) (heap (run_edits ops s)) = heap s \<and>
         pageData (run evs s) = pageData s \<and>
         canonical (run evs s) = canonical s \<and>
         take (length (heap s)) (heap (run evs s)) = heap s"
proof -
  have k1: "keeps s (run_edits ops s)" using assms(1) by (rule run_edits_keeps)
  have k2: "keeps s (run evs s)" using assms by (rule run_keeps)
  from keeps_canonical [OF assms(1) k1] keeps_canonical [OF assms(1) k2] k1 k2
  show ?thesis by (simp add: keeps_def)
qed

lemma editing_AB_refs_ok: "refs_ok editing_AB"
  by (simp add: refs_ok_def editing_AB_def viewing_AB_def)

theorem canonical_page_not_mutated_witness:
  "refs_ok editing_AB \<and>
   canonical (run_edits [AddRow, DeleteRow (JNum 1), CellEdit 0 0 ''z''] editing_AB) = Some page_AB \<and>
   canonical (run [Edit AddRow, SaveChanges (Rejected server_error) (Resolved page_AB), CancelEdit]
                editing_AB) = Some page_AB"
proof -
  have h: "\<forall>e\<in>set [Edit AddRow, SaveChanges (Rejected server_error) (Resolved page_AB), CancelEdit].
      \<not> saves_and_refetches e" by simp
  have c: "canonical editing_AB = Some page_AB"
    by (simp add: canonical_def deref_def editing_AB_def viewing_AB_def)
  from canonical_page_not_mutated [OF editing_AB_refs_ok h,
      of "[AddRow, DeleteRow (JNum 1), CellEdit 0 0 ''z'']"] c editing_AB_refs_ok
  show ?thesis by simp
qed

lemma handleToggleEdit_enter_keeps:
  "refs_ok s \<Longrightarrow> \<not> isEditing s \<Longrightarrow> keeps s (handleToggleEdit saved refetch s)"
  by (auto simp: keeps_def refs_ok_def handleToggleEdit_def json_copy_def alloc_def Let_def
      split: option.splits)

lemma handleToggleEdit_enter_requests:
  "\<not> isEditing s \<Longrightarrow> requests (handleToggleEdit saved refetch s) = requests s"
  by (auto simp: handleToggleEdit_def json_copy_def alloc_def Let_def split: option.splits)

lemma apply_edit_requests: "requests (apply_edit e s) = requests s"
  by (cases e)
    (auto simp: handleCellChange_def handleAddRow_def handleDeleteRow_def json_copy_def
      alloc_def Let_def split: option.splits)

lemma run_edits_requests: "requests (run_edits ops s) = requests s"
  unfolding run_edits_def by (induction ops arbitrary: s) (simp_all add: apply_edit_requests)

lemma handleCancelEdit_effect:
  assumes "refs_ok s" and "canonical s = Some p"
  shows "displayData (handleCancelEdit s) = p \<and>
         editBuffer (handleCancelEdit s) = Some p \<and>
         canonical (handleCancelEdit s) = Some p \<and>
         \<not> isEditing (handleCancelEdit s) \<and>
         requests (handleCancelEdit s) = requests s"
proof -
  from assms(2) obtain a where a: "pageData s = Some a" "heap s ! a = p"
    by (auto simp: canonical_def deref_def split: option.splits)
  with assms(1) have "a < length (heap s)" by (simp add: refs_ok_def)
  with a show ?thesis
    by (simp add: handleCancelEdit_def json_copy_def alloc_def displayData_def editBuffer_def
        canonical_def deref_def nth_append Let_def)
qed

text \<open>
  C8. From the read-only view of a fetched page, after \<^verbatim>\<open>enterEdit\<close> and any sequence of
  \<^verbatim>\<open>cellEdit\<close>, \<^verbatim>\<open>addRow\<close> and \<^verbatim>\<open>deleteRow\<close>, \<^verbatim>\<open>cancel\<close> leaves the view out of edit
  mode, showing data equal to the canonical page fetched last; the edit buffer is a
  copy of that page again, and no gateway call has been made.
\<close>

theorem cancel_restores_canonical_page:
  assumes "refs_ok s" and "\<not> isEditing s" and "canonical s = Some p"
  shows "displayData (handleCancelEdit (run_edits ops (handleToggleEdit saved refetch s))) = p \<and>
         editBuffer (handleCancelEdit (run_edits ops (handleToggleEdit saved refetch s))) = Some p \<and>
         canonical (handleCancelEdit (run_edits ops (handleToggleEdit saved refetch s))) = Some p \<and>
         \<not> isEditing (handleCancelEdit (run_edits ops (handleToggleEdit saved refetch s))) \<and>
         requests (handleCancelEdit (run_edits ops (handleToggleEdit saved refetch s))) = requests s"
proof -
  let ?s1 = "handleToggleEdit saved refetch s"
  let ?s2 = "run_edits ops ?s1"
  have k1: "keeps s ?s1" using assms(1,2) by (rule handleToggleEdit_enter_keeps)
  then have r1: "refs_ok ?s1" by (simp add: keeps_def)
  then have k2: "keeps ?s1 ?s2" by (rule run_edits_keeps)
  then have r2: "refs_ok ?s2" by (simp add: keeps_def)
  have "canonical ?s1 = Some p"
    using keeps_canonical [OF assms(1) k1] assms(3) by simp
  then have c2: "canonical ?s2 = Some p"
    using keeps_canonical [OF r1 k2] by simp
  have "requests ?s2 = requests s"
    using assms(2) by (simp add: run_edits_requests handleToggleEdit_enter_requests)
  with handleCancelEdit_effect [OF r2 c2] show ?thesis by simp
qed

lemma viewing_AB_refs_ok: "refs_ok viewing_AB"
  by (simp add: refs_ok_def viewing_AB_def)

theorem cancel_restores_canonical_page_witness:
  "refs_ok viewing_AB \<and> \<not> isEditing viewing_AB \<and> canonical viewing_AB = Some page_AB \<and>
   displayData (handleCancelEdit (run_edits [AddRow, DeleteRow (JNum 1)]
     (handleToggleEdit (Resolved ()) (Resolved page_AB) viewing_AB))) = page_AB \<and>
   requests (handleCancelEdit (run_edits [AddRow, DeleteRow (JNum 1)]
     (handleToggleEdit (Resolved ()) (Resolved page_AB) viewing_AB))) = []"
proof -
  have e: "\<not> isEditing viewing_AB" by (simp add: viewing_AB_def)
  have c: "canonical viewing_AB = Some page_AB"
    by (simp add: canonical_def deref_def viewing_AB_def)
  have q: "requests viewing_AB = []" by (simp add: viewing_AB_def)
  from cancel_restores_canonical_page [OF viewing_AB_refs_ok e c,
      of "[AddRow, DeleteRow (JNum 1)]" "Resolved ()" "Resolved page_AB"]
    viewing_AB_refs_ok e c q
  show ?thesis by simp
qed

lemma fold_update_map_of:
  "fold (\<lambda>(k, v) m. m(k \<mapsto> v)) pairs m0 = m0 ++ map_of (rev pairs)"
proof (induction pairs arbitrary: m0)
  case Nil
  show ?case by simp
next
  case (Cons p pairs)
  obtain k v where p: "p = (k, v)" by (cases p)
  have "fold (\<lambda>(k, v) m. m(k \<mapsto> v)) (p # pairs) m0 =
          fold (\<lambda>(k, v) m. m(k \<mapsto> v)) pairs (m0(k \<mapsto> v))"
    by (simp add: p)
  also have "\<dots> = m0(k \<mapsto> v) ++ map_of (rev pairs)"
    by (rule Cons.IH)
  also have "\<dots> = m0 ++ map_of (rev (p # pairs))"
  proof
    fix x
    show "(m0(k \<mapsto> v) ++ map_of (rev pairs)) x = (m0 ++ map_of (rev (p # pairs))) x"
      by (simp add: p map_of_append map_add_def split: option.splits)
  qed
  finally show ?case .
qed

lemma Map_new_map_of: "Map_new pairs = map_of (rev pairs)"
  by (simp add: Map_new_def fold_update_map_of)

lemma Map_new_Some_truthy:
  assumes "\<forall>e\<in>set sts. truthy (st_status e)"
    and "Map_new (map (\<lambda>e. (st_row_id e, st_status e)) sts) k = Some v"
  shows "truthy v"
proof -
  from assms(2) have "(k, v) \<in> set (rev (map (\<lambda>e. (st_row_id e, st_status e)) sts))"
    unfolding Map_new_map_of by (rule map_of_SomeD)
  then obtain e where "e \<in> set sts" "v = st_status e" by auto
  with assms(1) show ?thesis by simp
qed

text \<open>
  C6. When every status of the ToDo's status set is truthy (as the three values of the
  enumeration are), the combined rows are the source rows in their order, each with
  its id, order and cells and with a \<open>status\<close> that is the one the status map holds for
  the row's id, or \<^verbatim>\<open>'NOT_STARTED'\<close> when the map has no entry for it. The status map
  holds, for an id, the status of the last entry with that id.
\<close>

theorem combinedRows_status_lookup:
  assumes "\<forall>e\<in>set sts. truthy (st_status e)"
  shows "combinedRows sts rs =
           map (\<lambda>r. \<lparr>row_id = row_id r, row_order = row_order r, cells = cells r,
                      status = (case Map_new (map (\<lambda>e. (st_row_id e, st_status e)) sts) (row_id r) of
                                  None \<Rightarrow> JStr ''NOT_STARTED''
                                | Some st \<Rightarrow> st)\<rparr>) rs \<and>
         Map_new (map (\<lambda>e. (st_row_id e, st_status e)) sts) =
           map_of (rev (map (\<lambda>e. (st_row_id e, st_status e)) sts))"
proof -
  let ?m = "Map_new (map (\<lambda>e. (st_row_id e, st_status e)) sts)"
  have "js_or (Map_get ?m k) (JStr ''NOT_STARTED'') =
          (case ?m k of None \<Rightarrow> JStr ''NOT_STARTED'' | Some st \<Rightarrow> st)" for k
  proof (cases "?m k")
    case None
    then show ?thesis by (simp add: Map_get_def js_or_def)
  next
    case (Some v)
    with assms have "truthy v" by (rule Map_new_Some_truthy)
    with Some show ?thesis by (simp add: Map_get_def js_or_def)
  qed
  then show ?thesis by (simp add: combinedRows_def Map_new_map_of)
qed

theorem combinedRows_witness:
  "combinedRows (statuses todo_56) (rows page_56) = todo_rows display_56 \<and>
   todoDisplayData (fetchTodoData (Resolved todo_56) (Resolved page_56)
     (loaded_56\<lparr>todoDisplayData := None\<rparr>)) = Some display_56"
proof -
  have h: "\<forall>e\<in>set (statuses todo_56). truthy (st_status e)" by (simp add: todo_56_def)
  have 1: "combinedRows (statuses todo_56) (rows page_56) = todo_rows display_56"
    using combinedRows_status_lookup [OF h, of "rows page_56"]
    by (simp add: todo_56_def page_56_def display_56_def)
  then show ?thesis
    by (simp add: fetchTodoData_def loaded_56_def Let_def display_56_def)
qed

text \<open>
  C5. On a loaded ToDo view, \<^verbatim>\<open>changeStatus(rowId, newStatus)\<close> sets the status of the
  rows with id \<open>rowId\<close> to \<open>newStatus\<close> before the call settles, keeping the view it had
  as the snapshot. If the call is rejected, an error notification is added and the
  view, if still mounted, is the snapshot again. If the call resolves, the view with
  the new status stays, the status update is the only call made, and a success
  notification of 2000 ms is added. The last three lines state the same for the
  continuation run from any state \<open>t\<close> in which the call settles.
\<close>

theorem changeStatus_optimistic_then_keep_or_restore:
  assumes "todoDisplayData s = Some d"
  shows "handleStatusChange_begin rowId newStatus s =
           (Some d,
            s\<lparr>todoDisplayData :=
                 Some (d\<lparr>todo_rows :=
                          map (\<lambda>row. if row_id row = rowId then row\<lparr>status := newStatus\<rparr> else row)
                            (todo_rows d)\<rparr>),
              requests := UpdateTodoStatus (todoId s) rowId newStatus # requests s\<rparr>) \<and>
         todoDisplayData (handleStatusChange rowId newStatus (Rejected err) s) =
           (if isMounted s then Some d
            else Some (d\<lparr>todo_rows :=
                          map (\<lambda>row. if row_id row = rowId then row\<lparr>status := newStatus\<rparr> else row)
                            (todo_rows d)\<rparr>)) \<and>
         notifications (handleStatusChange rowId newStatus (Rejected err) s) =
           \<lparr>n_id = next_uuid s,
            n_message = e_or (get_prop (err_data err) ''detail'') (e_str ''Failed to update status.''),
            n_type = Error, n_duration = 5000\<rparr> # notifications s \<and>
         todoDisplayData (handleStatusChange rowId newStatus (Resolved ()) s) =
           Some (d\<lparr>todo_rows :=
                    map (\<lambda>row. if row_id row = rowId then row\<lparr>status := newStatus\<rparr> else row)
                      (todo_rows d)\<rparr>) \<and>
         requests (handleStatusChange rowId newStatus (Resolved ()) s) =
           UpdateTodoStatus (todoId s) rowId newStatus # requests s \<and>
         notifications (handleStatusChange rowId newStatus (Resolved ()) s) =
           \<lparr>n_id = next_uuid s, n_message = e_str ''Status updated!'',
            n_type = Success, n_duration = 2000\<rparr> # notifications s \<and>
         todoDisplayData (handleStatusChange_settle d (Rejected err) t) =
           (if isMounted t then Some d else todoDisplayData t) \<and>
         todoDisplayData (handleStatusChange_settle d (Resolved ()) t) = todoDisplayData t \<and>
         requests (handleStatusChange_settle d (Resolved ()) t) = requests t"
  using assms
  by (simp add: handleStatusChange_def handleStatusChange_begin_def
      handleStatusChange_settle_def addNotification_def Let_def)

theorem changeStatus_witness:
  "todoDisplayData loaded_56 = Some display_56 \<and>
   map status (todo_rows (the (todoDisplayData
     (snd (handleStatusChange_begin (JNum 6) (JStr ''IN_PROGRESS'') loaded_56))))) =
       [JStr ''COMPLETED'', JStr ''IN_PROGRESS''] \<and>
   todoDisplayData (handleStatusChange (JNum 6) (JStr ''IN_PROGRESS'') (Rejected server_error)
     loaded_56) = Some display_56 \<and>
   map n_type (notifications (handleStatusChange (JNum 6) (JStr ''IN_PROGRESS'')
     (Rejected server_error) loaded_56)) = [Error] \<and>
   map status (todo_rows (the (todoDisplayData
     (handleStatusChange (JNum 6) (JStr ''IN_PROGRESS'') (Resolved ()) loaded_56)))) =
       [JStr ''COMPLETED'', JStr ''IN_PROGRESS''] \<and>
   map n_type (notifications (handleStatusChange (JNum 6) (JStr ''IN_PROGRESS'')
     (Resolved ()) loaded_56)) = [Success]"
proof -
  have d: "todoDisplayData loaded_56 = Some display_56" by (simp add: loaded_56_def)
  have m: "isMounted loaded_56" "notifications loaded_56 = []" by (simp_all add: loaded_56_def)
  from changeStatus_optimistic_then_keep_or_restore
         [OF d, of "JNum 6" "JStr ''IN_PROGRESS''" server_error loaded_56] d m
  show ?thesis by (simp add: display_56_def)
qed

text \<open>
  C10. The payload of a save carries, for each row and each column, the id when it is
  truthy and \<open>null\<close> otherwise: \<open>null\<close>, \<open>undefined\<close>, \<open>0\<close>, the empty string and \<open>false\<close>
  all become \<open>null\<close>. A row or a column with the numeric id 0 is sent with id \<open>null\<close>.
  This payload is what \<^verbatim>\<open>handleSaveChanges\<close> passes to the gateway.
\<close>

theorem save_payload_falsy_ids_null:
  "map row_id (rows (save_payload d)) =
     map (\<lambda>r. if truthy (row_id r) then row_id r else JNull) (rows d) \<and>
   map col_id (columns (save_payload d)) =
     map (\<lambda>c. if truthy (col_id c) then col_id c else JNull) (columns d) \<and>
   js_or JNull JNull = JNull \<and> js_or JUndefined JNull = JNull \<and>
   js_or (JNum 0) JNull = JNull \<and> js_or (JStr []) JNull = JNull \<and>
   js_or (JBool False) JNull = JNull \<and>
   save_payload \<lparr>columns = [\<lparr>col_id = JNum 0, col_name = n, col_order = i, col_width = w\<rparr>],
                  rows = [\<lparr>row_id = JNum 0, row_order = k, cells = xs\<rparr>]\<rparr> =
     \<lparr>columns = [\<lparr>col_id = JNull, col_name = n, col_order = i, col_width = w\<rparr>],
      rows = [\<lparr>row_id = JNull, row_order = k, cells = xs\<rparr>]\<rparr> \<and>
   requests (handleSaveChanges_begin s) =
     SavePageData (pageSlug s) (save_payload (heap s ! the (editData s))) # requests s"
  by (simp add: save_payload_def js_or_def handleSaveChanges_begin_def Let_def o_def)

lemma to_double_small: "\<bar>n\<bar> \<le> 9007199254740992 \<Longrightarrow> to_double n = n"
  by (simp add: to_double_def Let_def)

lemma double_add_plus_one:
  "0 \<le> m \<Longrightarrow>
   double_add m 1 = (if m < 9007199254740992 then m + 1 else to_double (to_double m + 1))"
  by (simp add: double_add_def to_double_small)

lemma bit_length_2_53_1: "bit_length 9007199254740993 = 54"
  by (simp add: bit_length.simps)

lemma to_double_2_53_1: "to_double 9007199254740993 = 9007199254740992"
  by (simp add: to_double_def bit_length_2_53_1 Let_def)

text \<open>
  C7, as the code has it. In edit mode, \<^verbatim>\<open>addRow()\<close> appends exactly one row to the edit
  buffer: its id is \<open>null\<close>, its cells are one empty string for each column, and its
  order is \<open>m + 1\<close> computed on doubles, \<open>m\<close> being the maximum of 0 and the orders of the
  rows there: exactly \<open>m + 1\<close> when \<open>m\<close> is below \<open>2\<^sup>5\<^sup>3\<close> (so 1 when there is no row),
  and the double nearest to the sum from there on. The columns and the rows that were
  there are as before.
\<close>

theorem addRow_appends:
  assumes "isEditing s" and "editBuffer s = Some d"
  shows "editBuffer (handleAddRow s) =
           Some (d\<lparr>rows := rows d @
                   [\<lparr>row_id = JNull,
                     row_order =
                       (let m = Max (insert 0 (set (map row_order (rows d))))
                        in if m < 9007199254740992 then m + 1
                           else to_double (to_double m + 1)),
                     cells = replicate (length (columns d)) (Some [])\<rparr>]\<rparr>)"
proof -
  from assms(2) obtain a where a: "editData s = Some a" "heap s ! a = d"
    using editBuffer_SomeD by blast
  define m where "m = Max (insert 0 (set (map row_order (rows d))))"
  have m0: "0 \<le> m" unfolding m_def by simp
  have mm: "Math_max 0 (map row_order (rows d)) = m"
    by (simp only: m_def Math_max_Max)
  have e: "m = 0" if "rows d = []" using that by (simp add: m_def)
  have h: "editBuffer (handleAddRow s) =
     Some (d\<lparr>rows := rows d @
             [\<lparr>row_id = JNull,
               row_order = (if 0 < length (rows d)
                            then double_add (Math_max 0 (map row_order (rows d))) 1 else 1),
               cells = replicate (length (columns d)) (Some [])\<rparr>]\<rparr>)"
    using assms(1) a
    by (simp add: handleAddRow_def json_copy_def alloc_def editBuffer_def deref_def Let_def)
  have "(if 0 < length (rows d) then double_add m 1 else 1) =
          (if m < 9007199254740992 then m + 1 else to_double (to_double m + 1))"
  proof (cases "rows d = []")
    case True
    then show ?thesis by (simp add: e)
  next
    case False
    then show ?thesis using m0 by (simp add: double_add_plus_one)
  qed
  then show ?thesis
    unfolding h mm Let_def m_def by (rule arg_cong [where f = "\<lambda>k. Some (d\<lparr>rows := rows d @
             [\<lparr>row_id = JNull, row_order = k,
               cells = replicate (length (columns d)) (Some [])\<rparr>]\<rparr>)"])
qed

theorem addRow_witness:
  "isEditing editing_AB \<and> editBuffer editing_AB = Some page_AB \<and>
   editBuffer (handleAddRow editing_AB) =
     Some (page_AB\<lparr>rows := rows page_AB @
             [\<lparr>row_id = JNull, row_order = 2, cells = [Some [], Some []]\<rparr>]\<rparr>) \<and>
   editBuffer (handleAddRow editing_gaps) =
     Some (page_gaps\<lparr>rows := rows page_gaps @
             [\<lparr>row_id = JNull, row_order = 10, cells = [Some []]\<rparr>]\<rparr>)"
proof -
  have g: "isEditing editing_gaps" "editBuffer editing_gaps = Some page_gaps"
    by (simp_all add: editing_gaps_def editing_AB_def viewing_AB_def editBuffer_def deref_def)
  have 1: "editBuffer (handleAddRow editing_AB) =
     Some (page_AB\<lparr>rows := rows page_AB @
             [\<lparr>row_id = JNull, row_order = 2, cells = [Some [], Some []]\<rparr>]\<rparr>)"
    using addRow_appends [OF editing_AB_editing editing_AB_buffer]
    by (simp add: page_AB_def numeral_2_eq_2)
  have 2: "editBuffer (handleAddRow editing_gaps) =
     Some (page_gaps\<lparr>rows := rows page_gaps @
             [\<lparr>row_id = JNull, row_order = 10, cells = [Some []]\<rparr>]\<rparr>)"
    using addRow_appends [OF g] by (simp add: page_gaps_def)
  from 1 2 show ?thesis by (simp add: editing_AB_editing editing_AB_buffer)
qed

text \<open>
  C7 as stated fails: when the only row has the order \<open>2\<^sup>5\<^sup>3\<close>, the new row has the order
  \<open>2\<^sup>5\<^sup>3\<close> again, not the maximum plus 1.
\<close>

theorem addRow_order_rounded_at_2_53:
  "isEditing editing_big \<and> editBuffer editing_big = Some page_big \<and>
   map row_order (rows page_big) = [9007199254740992] \<and>
   editBuffer (handleAddRow editing_big) =
     Some (page_big\<lparr>rows := rows page_big @
             [\<lparr>row_id = JNull, row_order = 9007199254740992, cells = [Some []]\<rparr>]\<rparr>) \<and>
   Max (insert 0 (set (map row_order (rows page_big)))) + 1 = 9007199254740993"
  by (simp add: handleAddRow_def json_copy_def alloc_def editBuffer_def deref_def
      Math_max_def double_add_def to_double_small to_double_2_53_1 Let_def editing_big_def
      editing_AB_def viewing_AB_def page_big_def)

lemma rows_from_fields:
  "xs = map (\<lambda>(k, (i, c)). \<lparr>row_id = i, row_order = k, cells = c\<rparr>)
          (zip (map row_order xs) (map (\<lambda>r. (row_id r, cells r)) xs))"
  by (induction xs) simp_all

lemma deleteRow_exact:
  assumes "editBuffer t = Some d'"
    and "columns d' = cs"
    and "map row_order (rows d') = [1..int (length (rows d'))]"
    and "map (\<lambda>r. (row_id r, cells r)) (rows d') = ics"
  shows "editBuffer t =
           Some \<lparr>columns = cs,
                 rows = map (\<lambda>(k, (i, c)). \<lparr>row_id = i, row_order = k, cells = c\<rparr>)
                          (zip [1..int (length ics)] ics)\<rparr>"
proof -
  have len: "length ics = length (rows d')" using assms(4) by (metis length_map)
  have "rows d' = map (\<lambda>(k, (i, c)). \<lparr>row_id = i, row_order = k, cells = c\<rparr>)
                    (zip (map row_order (rows d')) (map (\<lambda>r. (row_id r, cells r)) (rows d')))"
    by (rule rows_from_fields)
  also have "\<dots> = map (\<lambda>(k, (i, c)). \<lparr>row_id = i, row_order = k, cells = c\<rparr>)
                    (zip [1..int (length ics)] ics)"
    unfolding assms(4) len using assms(3) by simp
  finally have "rows d' = map (\<lambda>(k, (i, c)). \<lparr>row_id = i, row_order = k, cells = c\<rparr>)
                    (zip [1..int (length ics)] ics)" .
  with assms(2) have "d' = \<lparr>columns = cs,
                 rows = map (\<lambda>(k, (i, c)). \<lparr>row_id = i, row_order = k, cells = c\<rparr>)
                          (zip [1..int (length ics)] ics)\<rparr>"
    by (cases d') simp
  with assms(1) show ?thesis by simp
qed


theorem deleteRow_witness:
  "editBuffer (handleAddRow editing_AB) =
     Some (page_AB\<lparr>rows := [\<lparr>row_id = JNum 1, row_order = 1, cells = [Some ''x'', Some ''y'']\<rparr>,
                              \<lparr>row_id = JNull, row_order = 2, cells = [Some [], Some []]\<rparr>]\<rparr>) \<and>
   editBuffer (handleDeleteRow (JNum 1) (handleAddRow editing_AB)) =
     Some (page_AB\<lparr>rows := [\<lparr>row_id = JNull, row_order = 1, cells = [Some [], Some []]\<rparr>]\<rparr>) \<and>
   editBuffer editing_gaps = Some page_gaps \<and>
   editBuffer (handleDeleteRow (JNum 2) editing_gaps) =
     Some (page_gaps\<lparr>rows := [\<lparr>row_id = JNum 1, row_order = 1, cells = [Some ''p'']\<rparr>,
                                \<lparr>row_id = JNum 3, row_order = 2, cells = [Some ''r'']\<rparr>]\<rparr>)"
proof -
  let ?icsd1 = "[(JNull, [Some [], Some [] :: cell])]"
  let ?icsd2 = "[(JNum 1, [Some ''p'']), (JNum 3, [Some ''r'' :: cell])]"
  let ?s1 = "handleAddRow editing_AB"
  let ?p1 = "page_AB\<lparr>rows := [\<lparr>row_id = JNum 1, row_order = 1, cells = [Some ''x'', Some ''y'']\<rparr>,
                              \<lparr>row_id = JNull, row_order = 2, cells = [Some [], Some []]\<rparr>]\<rparr>"
  have e1: "isEditing ?s1"
    by (simp add: handleAddRow_def json_copy_def alloc_def Let_def editing_AB_def viewing_AB_def)
  have b1: "editBuffer ?s1 = Some ?p1"
    by (simp add: handleAddRow_def json_copy_def alloc_def editBuffer_def deref_def
      Math_max_def double_add_def to_double_small Let_def editing_AB_def viewing_AB_def
      page_AB_def)
  from deleteRow_removes_and_renumbers [OF e1 b1, of "JNum 1"]
  obtain d1 where d1: "editBuffer (handleDeleteRow (JNum 1) ?s1) = Some d1 \<and>
      columns d1 = columns ?p1 \<and>
      (\<forall>r\<in>set (rows d1). row_id r \<noteq> JNum 1) \<and>
      map row_order (rows d1) = [1..int (length (rows d1))] \<and>
      map (\<lambda>r. (row_id r, cells r)) (rows d1) =
         map (\<lambda>r. (row_id r, cells r)) (filter (\<lambda>r. row_id r \<noteq> JNum 1) (rows ?p1))" ..
  have f1: "map (\<lambda>r. (row_id r, cells r)) (filter (\<lambda>r. row_id r \<noteq> JNum 1) (rows ?p1)) =
          [(JNull, [Some [], Some []])]" by simp
  have "editBuffer (handleDeleteRow (JNum 1) ?s1) =
           Some \<lparr>columns = columns ?p1,
                 rows = map (\<lambda>(k, (i, c)). \<lparr>row_id = i, row_order = k, cells = c\<rparr>)
                          (zip [1..int (length ?icsd1)] ?icsd1)\<rparr>"
  proof (rule deleteRow_exact [where d' = d1])
    show "map (\<lambda>r. (row_id r, cells r)) (rows d1) = ?icsd1"
      by (rule trans [OF d1 [THEN conjunct2, THEN conjunct2, THEN conjunct2, THEN conjunct2] f1])
  qed (rule d1 [THEN conjunct1], rule d1 [THEN conjunct2, THEN conjunct1],
       rule d1 [THEN conjunct2, THEN conjunct2, THEN conjunct2, THEN conjunct1])
  then have 1: "editBuffer (handleDeleteRow (JNum 1) ?s1) =
     Some (page_AB\<lparr>rows := [\<lparr>row_id = JNull, row_order = 1, cells = [Some [], Some []]\<rparr>]\<rparr>)"
    by (simp add: page_AB_def)
  have e2: "isEditing editing_gaps" and b2: "editBuffer editing_gaps = Some page_gaps"
    by (simp_all add: editing_gaps_def editing_AB_def viewing_AB_def editBuffer_def deref_def)
  from deleteRow_removes_and_renumbers [OF e2 b2, of "JNum 2"]
  obtain d2 where d2: "editBuffer (handleDeleteRow (JNum 2) editing_gaps) = Some d2 \<and>
      columns d2 = columns page_gaps \<and>
      (\<forall>r\<in>set (rows d2). row_id r \<noteq> JNum 2) \<and>
      map row_order (rows d2) = [1..int (length (rows d2))] \<and>
      map (\<lambda>r. (row_id r, cells r)) (rows d2) =
         map (\<lambda>r. (row_id r, cells r)) (filter (\<lambda>r. row_id r \<noteq> JNum 2) (rows page_gaps))" ..
  have f2: "map (\<lambda>r. (row_id r, cells r)) (filter (\<lambda>r. row_id r \<noteq> JNum 2) (rows page_gaps)) =
          [(JNum 1, [Some ''p'']), (JNum 3, [Some ''r''])]" by (simp add: page_gaps_def)
  have u: "[1..int (length ?icsd2)] = [1, 2]"
    by (simp add: upto_rec1)
  have "editBuffer (handleDeleteRow (JNum 2) editing_gaps) =
           Some \<lparr>columns = columns page_gaps,
                 rows = map (\<lambda>(k, (i, c)). \<lparr>row_id = i, row_order = k, cells = c\<rparr>)
                          (zip [1..int (length ?icsd2)] ?icsd2)\<rparr>"
  proof (rule deleteRow_exact [where d' = d2])
    show "map (\<lambda>r. (row_id r, cells r)) (rows d2) = ?icsd2"
      by (rule trans [OF d2 [THEN conjunct2, THEN conjunct2, THEN conjunct2, THEN conjunct2] f2])
  qed (rule d2 [THEN conjunct1], rule d2 [THEN conjunct2, THEN conjunct1],
       rule d2 [THEN conjunct2, THEN conjunct2, THEN conjunct2, THEN conjunct1])
  then have 2: "editBuffer (handleDeleteRow (JNum 2) editing_gaps) =
     Some (page_gaps\<lparr>rows := [\<lparr>row_id = JNum 1, row_order = 1, cells = [Some ''p'']\<rparr>,
                                \<lparr>row_id = JNum 3, row_order = 2, cells = [Some ''r'']\<rparr>]\<rparr>)"
    unfolding u by (simp add: page_gaps_def)
  from b1 1 b2 2 show ?thesis by simp
qed





lemma ascii_csrftoken_length: "length (ascii ''csrftoken'') + 1 = 10"
  by (simp add: ascii_def)

lemma find_cookie_find:
  "find_cookie pct name cs =
     (case find (\<lambda>c. take (length name + 1) (trim c) = name @ ascii ''='') cs of
        None \<Rightarrow> Inr None
      | Some c \<Rightarrow>
          (case decodeURIComponent pct (drop (length name + 1) (trim c)) of
             Inl e \<Rightarrow> Inl e
           | Inr v \<Rightarrow> Inr (Some v)))"
  by (induction cs) (simp_all add: Let_def)

lemma getCookie_csrf:
  "getCookie pct dc (ascii ''csrftoken'') =
     (case csrf_piece dc of
        None \<Rightarrow> Inr None
      | Some c \<Rightarrow>
          (case decodeURIComponent pct (drop 10 (trim c)) of
             Inl e \<Rightarrow> Inl e
           | Inr v \<Rightarrow> Inr (Some v)))"
proof -
  have e: "ascii ''csrftoken'' @ ascii ''='' = ascii ''csrftoken=''"
    by (simp add: ascii_def)
  have f: "find_cookie pct (ascii ''csrftoken'') cs =
     (case find (\<lambda>c. take 10 (trim c) = ascii ''csrftoken='') cs of
        None \<Rightarrow> Inr None
      | Some c \<Rightarrow>
          (case decodeURIComponent pct (drop 10 (trim c)) of
             Inl e \<Rightarrow> Inl e
           | Inr v \<Rightarrow> Inr (Some v)))" for cs
    using find_cookie_find [of pct "ascii ''csrftoken''" cs]
    unfolding ascii_csrftoken_length e by simp
  show ?thesis
  proof (cases "dc = []")
    case True
    then show ?thesis
      by (simp add: getCookie_def csrf_piece_def trim_def ascii_def)
  next
    case False
    then show ?thesis
      by (simp only: getCookie_def csrf_piece_def f simp_thms if_True)
  qed
qed

text \<open>
  C9, as the code has it. For a request with a method: when the method is POST, PUT,
  PATCH or DELETE and the \<^verbatim>\<open>csrftoken\<close> cookie is present with a value that decodes to
  a non-empty string, the interceptor returns the configuration with the header
  \<^verbatim>\<open>X-CSRFToken\<close> set to that string and nothing else changed; when the method is GET,
  HEAD, OPTIONS (or TRACE) it returns the configuration as it is; when the method is
  POST, PUT, PATCH or DELETE and the cookie is absent, or present with an empty value,
  it returns the configuration as it is and writes one warning, without an exception.
\<close>

theorem interceptor_csrf_header:
  assumes "cfg_method cfg = Some m"
  shows "(toUpperCase upper m \<in> set [ascii ''POST'', ascii ''PUT'', ascii ''PATCH'', ascii ''DELETE''] \<longrightarrow>
            csrf_piece dc = Some c \<longrightarrow>
            decodeURIComponent pct (drop 10 (trim c)) = Inr tok \<longrightarrow> tok \<noteq> [] \<longrightarrow>
            request_interceptor upper pct dc cfg =
              Inr (cfg\<lparr>cfg_headers := (cfg_headers cfg)(''X-CSRFToken'' \<mapsto> tok)\<rparr>, [])) \<and>
         (toUpperCase upper m \<in> set [ascii ''GET'', ascii ''HEAD'', ascii ''OPTIONS'', ascii ''TRACE''] \<longrightarrow>
            request_interceptor upper pct dc cfg = Inr (cfg, [])) \<and>
         (toUpperCase upper m \<in> set [ascii ''POST'', ascii ''PUT'', ascii ''PATCH'', ascii ''DELETE''] \<longrightarrow>
            csrf_piece dc = None \<or> (csrf_piece dc = Some c \<and> drop 10 (trim c) = []) \<longrightarrow>
            request_interceptor upper pct dc cfg =
              Inr (cfg, [WarnCsrfMissing (toUpperCase upper m)]))"
proof -
  let ?M = "toUpperCase upper m"
  have mut: "?M \<noteq> [] \<and> ?M \<notin> set [ascii ''GET'', ascii ''HEAD'', ascii ''OPTIONS'', ascii ''TRACE'']"
    if "?M \<in> set [ascii ''POST'', ascii ''PUT'', ascii ''PATCH'', ascii ''DELETE'']"
    using that by (auto simp: ascii_def)
  have r: "request_interceptor upper pct dc cfg =
     (if ?M \<noteq> [] \<and> ?M \<notin> set [ascii ''GET'', ascii ''HEAD'', ascii ''OPTIONS'', ascii ''TRACE'']
      then (case csrf_piece dc of
              None \<Rightarrow> Inr (cfg, [WarnCsrfMissing ?M])
            | Some c \<Rightarrow>
                (case decodeURIComponent pct (drop 10 (trim c)) of
                   Inl e \<Rightarrow> Inl e
                 | Inr tok \<Rightarrow>
                     if tok \<noteq> []
                     then Inr (cfg\<lparr>cfg_headers := (cfg_headers cfg)(''X-CSRFToken'' \<mapsto> tok)\<rparr>, [])
                     else Inr (cfg, [WarnCsrfMissing ?M])))
      else Inr (cfg, []))"
    using assms
    by (simp add: request_interceptor_def getCookie_csrf split: option.splits sum.splits)
  show ?thesis
  proof (intro conjI impI)
    assume "?M \<in> set [ascii ''POST'', ascii ''PUT'', ascii ''PATCH'', ascii ''DELETE'']"
      and "csrf_piece dc = Some c"
      and "decodeURIComponent pct (drop 10 (trim c)) = Inr tok" and "tok \<noteq> []"
    with mut show "request_interceptor upper pct dc cfg =
              Inr (cfg\<lparr>cfg_headers := (cfg_headers cfg)(''X-CSRFToken'' \<mapsto> tok)\<rparr>, [])"
      by (simp add: r)
  next
    assume "?M \<in> set [ascii ''GET'', ascii ''HEAD'', ascii ''OPTIONS'', ascii ''TRACE'']"
    then show "request_interceptor upper pct dc cfg = Inr (cfg, [])"
      by (simp add: r)
  next
    assume "?M \<in> set [ascii ''POST'', ascii ''PUT'', ascii ''PATCH'', ascii ''DELETE'']"
      and "csrf_piece dc = None \<or> (csrf_piece dc = Some c \<and> drop 10 (trim c) = [])"
    with mut show "request_interceptor upper pct dc cfg = Inr (cfg, [WarnCsrfMissing ?M])"
      by (auto simp: r decodeURIComponent_def)
  qed
qed

lemma upper_post: "toUpperCase upper (ascii ''post'') = ascii ''POST''"
  by (simp add: toUpperCase_def ascii_def)

lemma upper_get: "toUpperCase upper (ascii ''get'') = ascii ''GET''"
  by (simp add: toUpperCase_def ascii_def)

lemma piece1:
  "csrf_piece (ascii ''sessionid=abc; csrftoken=tok123'') = Some (ascii '' csrftoken=tok123'')"
  by (simp add: csrf_piece_def trim_def is_space_def ascii_def)

lemma piece2: "csrf_piece (ascii ''sessionid=abc'') = None"
  by (simp add: csrf_piece_def trim_def is_space_def ascii_def)

lemma piece3: "csrf_piece (ascii ''csrftoken='') = Some (ascii ''csrftoken='')"
  by (simp add: csrf_piece_def trim_def is_space_def ascii_def)

lemma piece4: "csrf_piece (0x00A0 # ascii ''csrftoken=tok'') = Some (0x00A0 # ascii ''csrftoken=tok'')"
  by (simp add: csrf_piece_def trim_def is_space_def ascii_def)

lemma post_cfg_method: "cfg_method post_cfg = Some (ascii ''post'')"
  by (simp add: post_cfg_def)

lemma get_cfg_method: "cfg_method get_cfg = Some (ascii ''get'')"
  by (simp add: get_cfg_def)


theorem interceptor_csrf_header_witness:
  "request_interceptor keep_non_ascii reject_escapes (ascii ''sessionid=abc; csrftoken=tok123'')
     post_cfg =
     Inr (post_cfg\<lparr>cfg_headers := (cfg_headers post_cfg)(''X-CSRFToken'' \<mapsto> ascii ''tok123'')\<rparr>,
          []) \<and>
   request_interceptor keep_non_ascii reject_escapes (0x00A0 # ascii ''csrftoken=tok'') post_cfg =
     Inr (post_cfg\<lparr>cfg_headers := (cfg_headers post_cfg)(''X-CSRFToken'' \<mapsto> ascii ''tok'')\<rparr>,
          []) \<and>
   request_interceptor keep_non_ascii reject_escapes (ascii ''sessionid=abc; csrftoken=tok123'')
     get_cfg = Inr (get_cfg, []) \<and>
   request_interceptor keep_non_ascii reject_escapes (ascii ''sessionid=abc'') post_cfg =
     Inr (post_cfg, [WarnCsrfMissing (ascii ''POST'')])"
proof -
  have d1: "decodeURIComponent reject_escapes (drop 10 (trim (ascii '' csrftoken=tok123''))) =
              Inr (ascii ''tok123'')"
    by (simp add: decodeURIComponent_def trim_def is_space_def ascii_def)
  have d2: "decodeURIComponent reject_escapes (drop 10 (trim (0x00A0 # ascii ''csrftoken=tok''))) =
              Inr (ascii ''tok'')"
    by (simp add: decodeURIComponent_def trim_def is_space_def ascii_def)
  have n: "ascii ''tok123'' \<noteq> []" "ascii ''tok'' \<noteq> []" by (simp_all add: ascii_def)
  have 1: "request_interceptor keep_non_ascii reject_escapes
             (ascii ''sessionid=abc; csrftoken=tok123'') post_cfg =
     Inr (post_cfg\<lparr>cfg_headers := (cfg_headers post_cfg)(''X-CSRFToken'' \<mapsto> ascii ''tok123'')\<rparr>,
          [])"
    using interceptor_csrf_header [OF post_cfg_method,
        where c = "ascii '' csrftoken=tok123''" and dc = "ascii ''sessionid=abc; csrftoken=tok123''"
          and pct = reject_escapes and tok = "ascii ''tok123''" and upper = keep_non_ascii]
      piece1 d1 n
    by (simp add: upper_post)
  have 2: "request_interceptor keep_non_ascii reject_escapes (0x00A0 # ascii ''csrftoken=tok'')
             post_cfg =
     Inr (post_cfg\<lparr>cfg_headers := (cfg_headers post_cfg)(''X-CSRFToken'' \<mapsto> ascii ''tok'')\<rparr>,
          [])"
    using interceptor_csrf_header [OF post_cfg_method,
        where c = "0x00A0 # ascii ''csrftoken=tok''" and dc = "0x00A0 # ascii ''csrftoken=tok''"
          and pct = reject_escapes and tok = "ascii ''tok''" and upper = keep_non_ascii]
      piece4 d2 n
    by (simp add: upper_post)
  have 3: "request_interceptor keep_non_ascii reject_escapes
             (ascii ''sessionid=abc; csrftoken=tok123'') get_cfg = Inr (get_cfg, [])"
    using interceptor_csrf_header [OF get_cfg_method,
        where c = "[]" and dc = "ascii ''sessionid=abc; csrftoken=tok123''"
          and pct = reject_escapes and tok = "[]" and upper = keep_non_ascii]
    by (simp add: upper_get)
  have 4: "request_interceptor keep_non_ascii reject_escapes (ascii ''sessionid=abc'') post_cfg =
     Inr (post_cfg, [WarnCsrfMissing (ascii ''POST'')])"
    using interceptor_csrf_header [OF post_cfg_method,
        where c = "[]" and dc = "ascii ''sessionid=abc''" and pct = reject_escapes
          and tok = "[]" and upper = keep_non_ascii]
      piece2
    by (simp add: upper_post)
  from 1 2 3 4 show ?thesis by simp
qed

text \<open>
  C9 as stated fails: with \<^verbatim>\<open>document.cookie = "csrftoken="\<close> the cookie is present,
  \<^verbatim>\<open>getCookie\<close> returns its value, the empty string, and a POST request leaves the
  interceptor without the header, with a warning.
\<close>

theorem interceptor_empty_cookie_no_header:
  "toUpperCase keep_non_ascii (ascii ''post'') = ascii ''POST'' \<and>
   csrf_piece (ascii ''csrftoken='') = Some (ascii ''csrftoken='') \<and>
   getCookie reject_escapes (ascii ''csrftoken='') (ascii ''csrftoken'') = Inr (Some []) \<and>
   request_interceptor keep_non_ascii reject_escapes (ascii ''csrftoken='') post_cfg =
     Inr (post_cfg, [WarnCsrfMissing (ascii ''POST'')]) \<and>
   cfg_headers post_cfg ''X-CSRFToken'' = None"
proof -
  have g: "getCookie reject_escapes (ascii ''csrftoken='') (ascii ''csrftoken'') = Inr (Some [])"
    by (simp add: getCookie_def decodeURIComponent_def trim_def is_space_def ascii_def Let_def)
  have m: "ascii ''POST'' \<noteq> [] \<and>
           ascii ''POST'' \<notin> set [ascii ''GET'', ascii ''HEAD'', ascii ''OPTIONS'', ascii ''TRACE'']"
    by (simp add: ascii_def)
  have "request_interceptor keep_non_ascii reject_escapes (ascii ''csrftoken='') post_cfg =
     Inr (post_cfg, [WarnCsrfMissing (ascii ''POST'')])"
    using g m by (simp add: request_interceptor_def post_cfg_method upper_post)
  with g show ?thesis by (simp add: upper_post piece3 post_cfg_def)
qed

end
